theory Spec2Isabelle
  imports Main "HOL-Library.AList"
begin

section \<open>Data model of the WebSocket chat gateway\<close>

text \<open>
  The development embeds the WebSocket server of the repository
  (\<^verbatim>\<open>initializeWebSocket\<close>, \<^verbatim>\<open>handleMessage\<close> and its handlers, the
  broadcast utilities) together with the \<^verbatim>\<open>Message\<close> schema and its static
  \<^verbatim>\<open>markAsRead\<close>.

  The message handlers are asynchronous: at every \<^verbatim>\<open>await\<close> of a store call the
  handler is suspended, and any other event can be handled before it resumes. A
  suspended handler is a \<open>task\<close> of the state; the effect of the store call takes place
  when the call is issued, and its outcome is kept in the task. The connection and the
  close listeners run as one step each. The clock value read by \<^verbatim>\<open>new Date()\<close> and
  the failure of the store call that a step issues are arguments of the event.

  JSON payload fields are strings or absent. The content of a chat message is the list
  of the UTF-16 code units of the JavaScript string, which is what \<^verbatim>\<open>length\<close> counts
  and \<^verbatim>\<open>trim\<close> inspects; the other strings are identifiers, tags and texts that are
  only compared, cast or copied. An identity is the string form of a MongoDB ObjectId,
  24 lowercase hexadecimal digits, as \<^verbatim>\<open>user._id.toString()\<close> gives it.
\<close>

type_synonym identity = string
type_synonym conn = nat
type_synonym time = nat
type_synonym utf16 = "nat list"

text \<open>The \<^verbatim>\<open>readyState\<close> constants of the \<^verbatim>\<open>ws\<close> library.\<close>

datatype ready_state = CONNECTING | OPEN | CLOSING | CLOSED

text \<open>
  A WebSocket object with the properties the server stores on it: \<^verbatim>\<open>ws.userId\<close>,
  \<^verbatim>\<open>ws.username\<close> and \<^verbatim>\<open>ws.isAlive\<close> are undefined until step 3 of the
  connection handler. \<open>closeCode\<close> is the code handed to \<^verbatim>\<open>ws.close\<close>;
  \<open>listening\<close> says that the message, close, error and pong listeners are attached.
  \<open>transportUp\<close> says that the peer can still be reached: on a dead connection the
  socket stays open until the failure is noticed, and what is sent meanwhile is lost.
\<close>

record socket =
  readyState :: ready_state
  userId :: "identity option"
  username :: "string option"
  isAlive :: "bool option"
  closeCode :: "nat option"
  listening :: bool
  transportUp :: bool

text \<open>The fields of a \<^verbatim>\<open>User\<close> document that the gateway reads or writes.\<close>

record user_doc =
  u_id :: identity
  u_username :: string
  u_avatar :: "string option"
  isOnline :: bool
  lastSeen :: time

datatype msg_status = Sent | Delivered | Read

text \<open>
  A \<^verbatim>\<open>Message\<close> document (\<^verbatim>\<open>messageSchema\<close>); \<open>sender\<close> and \<open>receiver\<close> are
  ObjectIds.
\<close>

record message_doc =
  m_id :: nat
  sender :: identity
  receiver :: identity
  content :: utf16
  messageType :: string
  isRead :: bool
  readAt :: "time option"
  status :: msg_status
  createdAt :: time

text \<open>The \<^verbatim>\<open>data\<close> object of a client envelope.\<close>

record data =
  d_receiverId :: "string option"
  d_content :: "utf16 option"
  d_messageType :: "string option"
  d_senderId :: "string option"

text \<open>
  What arrives in a \<^verbatim>\<open>message\<close> event: text that \<^verbatim>\<open>JSON.parse\<close> rejects, or an
  envelope whose \<^verbatim>\<open>type\<close> and \<^verbatim>\<open>data\<close> may each be absent.
\<close>

datatype inbound = Unparseable | Envelope "string option" "data option"

text \<open>Server to client envelopes, with their \<^verbatim>\<open>data\<close> fields in the order of the source.\<close>

datatype envelope =
    ConnectionEstablished identity string
  | OnlineUsers "(identity \<times> string \<times> string option) list" nat time
  | UserOnline identity string time
  | UserOffline identity string time
  | NewMessage nat identity string utf16 string time
  | MessageSent nat string utf16 time msg_status
  | MessageDelivered nat time
  | MessagesRead identity string time
  | MarkReadSuccess string nat
  | TypingIndicator identity string bool
  | Error string time

datatype js_error = TypeError | ValidationError | CastError | StoreError

text \<open>
  The local variables of \<^verbatim>\<open>handleChatMessage\<close> that live across its awaits:
  \<^verbatim>\<open>ws\<close> with its \<^verbatim>\<open>userId\<close> and \<^verbatim>\<open>username\<close> (which never change once
  set), and the destructured \<^verbatim>\<open>receiverId\<close>, \<^verbatim>\<open>content\<close>, \<^verbatim>\<open>messageType\<close>.
\<close>

record chat_locals =
  c_ws :: conn
  c_userId :: identity
  c_username :: string
  c_receiverId :: string
  c_content :: utf16
  c_messageType :: string

text \<open>
  A suspended handler, named by the call it awaits, with the outcome of that call:
  \<^verbatim>\<open>Message.create\<close>, \<^verbatim>\<open>newMessage.populate\<close> and
  \<^verbatim>\<open>Message.findByIdAndUpdate\<close> in \<^verbatim>\<open>handleChatMessage\<close> (a flag says that the
  call rejected), \<^verbatim>\<open>Message.markAsRead\<close> in \<^verbatim>\<open>handleMarkRead\<close>, and
  \<^verbatim>\<open>User.find\<close> in \<^verbatim>\<open>sendOnlineUsersToClient\<close>.
\<close>

datatype task =
    AwaitCreate chat_locals "js_error + message_doc"
  | AwaitPopulate chat_locals message_doc bool
  | AwaitStatusUpdate chat_locals message_doc bool
  | AwaitMarkAsRead conn identity string string "js_error + nat"
  | AwaitFindOnline conn "js_error + (identity \<times> string \<times> string option) list"

text \<open>
  The process state: the \<^verbatim>\<open>connectedClients\<close> Map (insertion ordered, hence an
  association list), the WebSocket objects by reference, the \<^verbatim>\<open>wss.clients\<close> set in
  insertion order, the two collections of the store, every frame handed to
  \<^verbatim>\<open>ws.send\<close>, oldest first, with the socket it was written to, the frames among
  them that were written to a dead connection, and the suspended handlers.
\<close>

record server =
  connectedClients :: "(identity \<times> conn) list"
  sockets :: "conn \<rightharpoonup> socket"
  clients :: "conn list"
  users :: "user_doc list"
  messages :: "message_doc list"
  wire :: "(conn \<times> envelope) list"
  lost :: "(conn \<times> envelope) list"
  pending :: "task list"

text \<open>
  The events of the process. A message event and the resumption of a suspended handler
  say whether the store call issued in the step rejects; \<open>Resume i\<close> resumes the
  suspended handler at position \<open>i\<close>; \<open>TransportDown\<close> is the loss of the peer of a
  socket.
\<close>

datatype event =
    Connection conn "string option" bool time
  | Message conn inbound bool time
  | Resume nat bool time
  | Close conn time
  | Pong conn
  | Heartbeat
  | TransportDown conn

section \<open>The socket library\<close>

definition ws_readyState :: "server \<Rightarrow> conn \<Rightarrow> ready_state" where
  "ws_readyState s ws = (case sockets s ws of Some sk \<Rightarrow> readyState sk | None \<Rightarrow> CLOSED)"

definition ws_closeCode :: "server \<Rightarrow> conn \<Rightarrow> nat option" where
  "ws_closeCode s ws = (case sockets s ws of Some sk \<Rightarrow> closeCode sk | None \<Rightarrow> None)"

definition ws_userId :: "server \<Rightarrow> conn \<Rightarrow> identity option" where
  "ws_userId s ws = (case sockets s ws of Some sk \<Rightarrow> userId sk | None \<Rightarrow> None)"

definition ws_transportUp :: "server \<Rightarrow> conn \<Rightarrow> bool" where
  "ws_transportUp s ws = (case sockets s ws of Some sk \<Rightarrow> transportUp sk | None \<Rightarrow> False)"

text \<open>
  \<^verbatim>\<open>ws.send(data)\<close> on an open socket. The call returns in either case: a write that
  the transport cannot carry is reported later through the socket's error event, for
  which the server has a listener that logs it, and the frame is lost.
\<close>

definition ws_send :: "conn \<Rightarrow> envelope \<Rightarrow> server \<Rightarrow> server" where
  "ws_send ws message s =
     (if ws_transportUp s ws then s\<lparr>wire := wire s @ [(ws, message)]\<rparr>
      else s\<lparr>wire := wire s @ [(ws, message)], lost := lost s @ [(ws, message)]\<rparr>)"

text \<open>
  \<^verbatim>\<open>ws.close(code, reason)\<close> starts the closing handshake of an open socket and does
  nothing on a socket that is closing or closed.
\<close>

definition ws_close :: "conn \<Rightarrow> nat \<Rightarrow> server \<Rightarrow> server" where
  "ws_close ws code s =
     (case sockets s ws of
        Some sk \<Rightarrow>
          if readyState sk = OPEN
          then s\<lparr>sockets := (sockets s)(ws \<mapsto> sk\<lparr>readyState := CLOSING, closeCode := Some code\<rparr>)\<rparr>
          else s
      | None \<Rightarrow> s)"

text \<open>\<^verbatim>\<open>ws.terminate()\<close> destroys the transport; the close event follows.\<close>

definition ws_terminate :: "conn \<Rightarrow> server \<Rightarrow> server" where
  "ws_terminate ws s =
     (case sockets s ws of
        Some sk \<Rightarrow>
          if readyState sk = CLOSED then s
          else s\<lparr>sockets := (sockets s)(ws \<mapsto> sk\<lparr>readyState := CLOSING\<rparr>)\<rparr>
      | None \<Rightarrow> s)"

section \<open>The store\<close>

text \<open>
  The code units that \<^verbatim>\<open>String.prototype.trim\<close> strips, which is the \<^verbatim>\<open>trim\<close>
  setter of a schema string: the white space and line terminator code points of
  ECMAScript (tab, line feed, vertical tab, form feed, carriage return, space, no-break
  space, the space separators U+1680, U+2000 to U+200A, U+202F, U+205F and U+3000, the
  line and paragraph separators, and the byte order mark).
\<close>

definition isSpace :: "nat \<Rightarrow> bool" where
  "isSpace c \<longleftrightarrow>
     c \<in> set [0x09, 0x0A, 0x0B, 0x0C, 0x0D, 0x20, 0xA0, 0x1680,
              0x2000, 0x2001, 0x2002, 0x2003, 0x2004, 0x2005, 0x2006, 0x2007, 0x2008, 0x2009,
              0x200A, 0x2028, 0x2029, 0x202F, 0x205F, 0x3000, 0xFEFF]"

definition trim :: "utf16 \<Rightarrow> utf16" where
  "trim t = rev (dropWhile isSpace (rev (dropWhile isSpace t)))"

text \<open>
  The cast of a string to the schema type \<^verbatim>\<open>ObjectId\<close>: a string of 24 hexadecimal
  digits is the ObjectId with these digits, whose string form has them in lower case;
  any other string is not cast (the 12-character form that drivers before version 6 of
  the BSON library also take is left out). The store compares ObjectIds, so two strings
  name the same document reference when they differ in the case of their digits only.
\<close>

definition isHexDigit :: "char \<Rightarrow> bool" where
  "isHexDigit c \<longleftrightarrow> c \<in> set ''0123456789abcdefABCDEF''"

definition toLowerCase :: "char \<Rightarrow> char" where
  "toLowerCase c = (case map_of (zip ''ABCDEF'' ''abcdef'') c of Some l \<Rightarrow> l | None \<Rightarrow> c)"

definition castObjectId :: "string \<Rightarrow> identity option" where
  "castObjectId v =
     (if length v = 24 \<and> list_all isHexDigit v then Some (map toLowerCase v) else None)"

definition User_findById :: "identity \<Rightarrow> server \<Rightarrow> user_doc option" where
  "User_findById uid s = find (\<lambda>u. u_id u = uid) (users s)"

definition User_findByIdAndUpdate :: "identity \<Rightarrow> (user_doc \<Rightarrow> user_doc) \<Rightarrow> server \<Rightarrow> server" where
  "User_findByIdAndUpdate uid upd s =
     s\<lparr>users := map (\<lambda>u. if u_id u = uid then upd u else u) (users s)\<rparr>"

text \<open>\<^verbatim>\<open>User.find({ isOnline: true }).select('_id username avatar')\<close>\<close>

definition User_findOnline :: "server \<Rightarrow> (identity \<times> string \<times> string option) list" where
  "User_findOnline s = map (\<lambda>u. (u_id u, u_username u, u_avatar u)) (filter isOnline (users s))"

text \<open>
  \<^verbatim>\<open>Message.create\<close> under \<^verbatim>\<open>messageSchema\<close>: sender and receiver are cast to
  ObjectIds; the content is trimmed, required and at most 5000 code units long; the
  message type is one of the enumerated tags; \<open>isRead\<close> and \<open>readAt\<close> take their
  defaults. A document that fails a cast or a validator is not stored. The new document
  gets the next free identifier.
\<close>

definition Message_create ::
  "string \<Rightarrow> string \<Rightarrow> utf16 \<Rightarrow> string \<Rightarrow> msg_status \<Rightarrow> time \<Rightarrow> server
     \<Rightarrow> js_error + (message_doc \<times> server)" where
  "Message_create sndr rcvr cnt mtype st now s =
     (case (castObjectId sndr, castObjectId rcvr) of
        (Some senderOid, Some receiverOid) \<Rightarrow>
          (let c = trim cnt in
           if c = [] then Inl ValidationError
           else if length c > 5000 then Inl ValidationError
           else if mtype \<notin> set [''text'', ''image'', ''file''] then Inl ValidationError
           else
             let newMessage = \<lparr>m_id = length (messages s), sender = senderOid,
                   receiver = receiverOid, content = c, messageType = mtype, isRead = False,
                   readAt = None, status = st, createdAt = now\<rparr>
             in Inr (newMessage, s\<lparr>messages := messages s @ [newMessage]\<rparr>))
      | _ \<Rightarrow> Inl ValidationError)"

text \<open>
  \<^verbatim>\<open>Message.findByIdAndUpdate(id, { status })\<close>. The \<^verbatim>\<open>_id\<close> of a document is
  unique in its collection, so updating every document with the id updates the one.
\<close>

definition Message_findByIdAndUpdate :: "nat \<Rightarrow> msg_status \<Rightarrow> server \<Rightarrow> server" where
  "Message_findByIdAndUpdate mid st s =
     s\<lparr>messages := map (\<lambda>m. if m_id m = mid then m\<lparr>status := st\<rparr> else m) (messages s)\<rparr>"

text \<open>
  \<^verbatim>\<open>messageSchema.statics.markAsRead\<close>: one \<^verbatim>\<open>updateMany\<close> with the filter
  \<^verbatim>\<open>{sender, receiver, isRead: false}\<close>, whose two identifiers are cast to ObjectIds
  (the query throws when one cannot be cast); the result carries \<^verbatim>\<open>modifiedCount\<close>.
\<close>

definition unreadFrom :: "identity \<Rightarrow> identity \<Rightarrow> message_doc \<Rightarrow> bool" where
  "unreadFrom senderOid receiverOid m \<longleftrightarrow>
     sender m = senderOid \<and> receiver m = receiverOid \<and> isRead m = False"

definition Message_markAsRead ::
  "string \<Rightarrow> string \<Rightarrow> time \<Rightarrow> server \<Rightarrow> js_error + (nat \<times> server)" where
  "Message_markAsRead senderId receiverId now s =
     (case (castObjectId senderId, castObjectId receiverId) of
        (Some senderOid, Some receiverOid) \<Rightarrow>
          Inr (length (filter (unreadFrom senderOid receiverOid) (messages s)),
               s\<lparr>messages :=
                   map (\<lambda>m. if unreadFrom senderOid receiverOid m
                             then m\<lparr>isRead := True, readAt := Some now, status := Read\<rparr>
                             else m) (messages s)\<rparr>)
      | _ \<Rightarrow> Inl CastError)"

section \<open>Utility functions\<close>

definition sendToClient :: "conn \<Rightarrow> envelope \<Rightarrow> server \<Rightarrow> server" where
  "sendToClient ws message s = (if ws_readyState s ws = OPEN then ws_send ws message s else s)"

definition sendError :: "conn \<Rightarrow> string \<Rightarrow> time \<Rightarrow> server \<Rightarrow> server" where
  "sendError ws errorMessage now s = sendToClient ws (Error errorMessage now) s"

text \<open>
  \<^verbatim>\<open>wss.clients.forEach\<close> with a guarded \<^verbatim>\<open>client.send\<close>: the loop of both
  broadcast functions, the guard being its first argument.
\<close>

primrec forEach_send :: "(socket \<Rightarrow> bool) \<Rightarrow> envelope \<Rightarrow> conn list \<Rightarrow> server \<Rightarrow> server" where
  "forEach_send guard message [] s = s"
| "forEach_send guard message (client # rest) s =
     forEach_send guard message rest
       (case sockets s client of
          Some sk \<Rightarrow> if guard sk then ws_send client message s else s
        | None \<Rightarrow> s)"

definition broadcastUserStatus :: "identity \<Rightarrow> string \<Rightarrow> bool \<Rightarrow> time \<Rightarrow> server \<Rightarrow> server" where
  "broadcastUserStatus uid uname online now s =
     forEach_send (\<lambda>client. readyState client = OPEN \<and> userId client \<noteq> Some uid)
       (if online then UserOnline uid uname now else UserOffline uid uname now)
       (clients s) s"

definition broadcastOnlineUsers :: "time \<Rightarrow> server \<Rightarrow> server" where
  "broadcastOnlineUsers now s =
     (let onlineUsers = User_findOnline s in
      forEach_send (\<lambda>client. readyState client = OPEN)
        (OnlineUsers onlineUsers (length onlineUsers) now) (clients s) s)"

text \<open>
  \<^verbatim>\<open>sendOnlineUsersToClient\<close> up to its await of \<^verbatim>\<open>User.find\<close>, and from there.
  The function has no handler of its own for a rejection, which reaches the
  \<^verbatim>\<open>catch\<close> of the message listener.
\<close>

definition sendOnlineUsersToClient :: "conn \<Rightarrow> bool \<Rightarrow> server \<Rightarrow> server" where
  "sendOnlineUsersToClient ws storeFails s =
     s\<lparr>pending := pending s @
         [AwaitFindOnline ws (if storeFails then Inl StoreError else Inr (User_findOnline s))]\<rparr>"

definition afterFindOnline ::
  "conn \<Rightarrow> js_error + (identity \<times> string \<times> string option) list \<Rightarrow> time \<Rightarrow> server \<Rightarrow> server" where
  "afterFindOnline ws outcome now s =
     (case outcome of
        Inl err \<Rightarrow> sendError ws ''Invalid message format. Please send valid JSON.'' now s
      | Inr onlineUsers \<Rightarrow>
          sendToClient ws (OnlineUsers onlineUsers (length onlineUsers) now) s)"

section \<open>The connection handler\<close>

text \<open>
  \<^verbatim>\<open>wss.on('connection', ...)\<close>. \<open>verifyToken\<close> is the credential verifier
  (\<^verbatim>\<open>jwt.verify\<close> behind \<^verbatim>\<open>verifyToken\<close> of the auth middleware), giving the
  \<^verbatim>\<open>id\<close> of the decoded payload; \<open>dbFails\<close> says that \<^verbatim>\<open>User.findById\<close> throws.
  An absent or empty token is falsy.
\<close>

definition onConnection ::
  "(string \<Rightarrow> identity option) \<Rightarrow> conn \<Rightarrow> string option \<Rightarrow> bool \<Rightarrow> time \<Rightarrow> server \<Rightarrow> server" where
  "onConnection verifyToken ws token dbFails now s =
     (case token of
        None \<Rightarrow>
          ws_close ws 4001
            (sendError ws ''Authentication required. Please provide a valid token.'' now s)
      | Some tok \<Rightarrow>
          if tok = [] then
            ws_close ws 4001
              (sendError ws ''Authentication required. Please provide a valid token.'' now s)
          else
            (case verifyToken tok of
               None \<Rightarrow>
                 ws_close ws 4002
                   (sendError ws ''Invalid or expired token. Please login again.'' now s)
             | Some decoded_id \<Rightarrow>
                 if dbFails then
                   ws_close ws 4004 (sendError ws ''Server error during authentication.'' now s)
                 else
                   (case User_findById decoded_id s of
                      None \<Rightarrow> ws_close ws 4003 (sendError ws ''User not found.'' now s)
                    | Some user \<Rightarrow>
                        (case sockets s ws of
                           None \<Rightarrow> s
                         | Some sk \<Rightarrow>
                             let uid = u_id user;
                                 uname = u_username user;
                                 s1 = s\<lparr>sockets := (sockets s)(ws \<mapsto>
                                        sk\<lparr>userId := Some uid, username := Some uname,
                                           isAlive := Some True\<rparr>)\<rparr>;
                                 s2 = (case map_of (connectedClients s1) uid of
                                         Some oldConnection \<Rightarrow> ws_close oldConnection 4005 s1
                                       | None \<Rightarrow> s1);
                                 s3 = s2\<lparr>connectedClients :=
                                        AList.update uid ws (connectedClients s2)\<rparr>;
                                 s4 = User_findByIdAndUpdate uid (\<lambda>u. u\<lparr>isOnline := True\<rparr>) s3;
                                 s5 = sendToClient ws (ConnectionEstablished uid uname) s4;
                                 s6 = broadcastUserStatus uid uname True now s5;
                                 s7 = broadcastOnlineUsers now s6
                             in (case sockets s7 ws of
                                   None \<Rightarrow> s7
                                 | Some sk7 \<Rightarrow>
                                     s7\<lparr>sockets := (sockets s7)(ws \<mapsto> sk7\<lparr>listening := True\<rparr>)\<rparr>)))))"

section \<open>Message handlers\<close>

text \<open>
  The handlers take the sender's socket and, beside it, the \<^verbatim>\<open>ws.userId\<close> and
  \<^verbatim>\<open>ws.username\<close> read from it. A handler destructures \<^verbatim>\<open>data\<close> first, which throws
  a \<^verbatim>\<open>TypeError\<close> when the envelope has none. An absent or empty string field is
  falsy. \<open>storeFails\<close> says that the store call issued in the step rejects for a reason
  of the store's own (the connection to the database is lost, say).

  \<^verbatim>\<open>handleChatMessage\<close> in its four parts: up to the await of
  \<^verbatim>\<open>Message.create\<close>; from there to the await of \<^verbatim>\<open>populate\<close>; from there to the
  await of \<^verbatim>\<open>Message.findByIdAndUpdate\<close>, or to the end when the receiver has no
  open registered connection; and from there to the end. A rejection of any of the
  three calls is caught by the one \<^verbatim>\<open>catch\<close> of the handler.
\<close>

definition handleChatMessage ::
  "conn \<Rightarrow> identity \<Rightarrow> string \<Rightarrow> data option \<Rightarrow> bool \<Rightarrow> time \<Rightarrow> server \<Rightarrow> js_error + server" where
  "handleChatMessage ws uid uname dat storeFails now s =
     (case dat of
        None \<Rightarrow> Inl TypeError
      | Some d \<Rightarrow>
          Inr
           (case (d_receiverId d, d_content d) of
              (Some receiverId, Some cnt) \<Rightarrow>
                if receiverId = [] \<or> cnt = [] then
                  sendError ws ''Missing required fields: receiverId and content'' now s
                else if receiverId = uid then
                  sendError ws ''Cannot send message to yourself'' now s
                else
                  (let mtype = (case d_messageType d of None \<Rightarrow> ''text'' | Some t \<Rightarrow> t);
                       locals = \<lparr>c_ws = ws, c_userId = uid, c_username = uname,
                                 c_receiverId = receiverId, c_content = cnt,
                                 c_messageType = mtype\<rparr>
                   in case (if storeFails then Inl StoreError
                            else Message_create uid receiverId cnt mtype Sent now s) of
                        Inl err \<Rightarrow> s\<lparr>pending := pending s @ [AwaitCreate locals (Inl err)]\<rparr>
                      | Inr (newMessage, s1) \<Rightarrow>
                          s1\<lparr>pending := pending s1 @ [AwaitCreate locals (Inr newMessage)]\<rparr>)
            | _ \<Rightarrow> sendError ws ''Missing required fields: receiverId and content'' now s))"

definition afterCreate ::
  "chat_locals \<Rightarrow> js_error + message_doc \<Rightarrow> bool \<Rightarrow> time \<Rightarrow> server \<Rightarrow> server" where
  "afterCreate locals outcome storeFails now s =
     (case outcome of
        Inl err \<Rightarrow> sendError (c_ws locals) ''Failed to send message. Please try again.'' now s
      | Inr newMessage \<Rightarrow>
          s\<lparr>pending := pending s @ [AwaitPopulate locals newMessage storeFails]\<rparr>)"

definition afterPopulate ::
  "chat_locals \<Rightarrow> message_doc \<Rightarrow> bool \<Rightarrow> bool \<Rightarrow> time \<Rightarrow> server \<Rightarrow> server" where
  "afterPopulate locals newMessage rejected storeFails now s =
     (if rejected then
        sendError (c_ws locals) ''Failed to send message. Please try again.'' now s
      else
        let s2 = sendToClient (c_ws locals)
                   (MessageSent (m_id newMessage) (c_receiverId locals) (c_content locals)
                      (createdAt newMessage) Sent) s
        in (case map_of (connectedClients s2) (c_receiverId locals) of
              None \<Rightarrow> s2
            | Some receiverConnection \<Rightarrow>
                if ws_readyState s2 receiverConnection = OPEN then
                  let s3 = sendToClient receiverConnection
                             (NewMessage (m_id newMessage) (c_userId locals) (c_username locals)
                                (c_content locals) (c_messageType locals)
                                (createdAt newMessage)) s2;
                      s4 = (if storeFails then s3
                            else Message_findByIdAndUpdate (m_id newMessage) Delivered s3)
                  in s4\<lparr>pending := pending s4 @ [AwaitStatusUpdate locals newMessage storeFails]\<rparr>
                else s2))"

definition afterStatusUpdate ::
  "chat_locals \<Rightarrow> message_doc \<Rightarrow> bool \<Rightarrow> time \<Rightarrow> server \<Rightarrow> server" where
  "afterStatusUpdate locals newMessage rejected now s =
     (if rejected then
        sendError (c_ws locals) ''Failed to send message. Please try again.'' now s
      else sendToClient (c_ws locals) (MessageDelivered (m_id newMessage) now) s)"

definition handleTypingIndicator ::
  "conn \<Rightarrow> identity \<Rightarrow> string \<Rightarrow> data option \<Rightarrow> bool \<Rightarrow> time \<Rightarrow> server \<Rightarrow> js_error + server" where
  "handleTypingIndicator ws uid uname dat isTyping now s =
     (case dat of
        None \<Rightarrow> Inl TypeError
      | Some d \<Rightarrow>
          Inr
           (case d_receiverId d of
              None \<Rightarrow> sendError ws ''Missing required field: receiverId'' now s
            | Some receiverId \<Rightarrow>
                if receiverId = [] then sendError ws ''Missing required field: receiverId'' now s
                else
                  (case map_of (connectedClients s) receiverId of
                     None \<Rightarrow> s
                   | Some receiverConnection \<Rightarrow>
                       if ws_readyState s receiverConnection = OPEN
                       then sendToClient receiverConnection (TypingIndicator uid uname isTyping) s
                       else s)))"

text \<open>
  \<^verbatim>\<open>handleMarkRead\<close> up to its await of \<^verbatim>\<open>Message.markAsRead\<close>, and from there.
\<close>

definition handleMarkRead ::
  "conn \<Rightarrow> identity \<Rightarrow> string \<Rightarrow> data option \<Rightarrow> bool \<Rightarrow> time \<Rightarrow> server \<Rightarrow> js_error + server" where
  "handleMarkRead ws uid uname dat storeFails now s =
     (case dat of
        None \<Rightarrow> Inl TypeError
      | Some d \<Rightarrow>
          Inr
           (case d_senderId d of
              None \<Rightarrow> sendError ws ''Missing required field: senderId'' now s
            | Some senderId \<Rightarrow>
                if senderId = [] then sendError ws ''Missing required field: senderId'' now s
                else
                  (case (if storeFails then Inl StoreError
                         else Message_markAsRead senderId uid now s) of
                     Inl err \<Rightarrow>
                       s\<lparr>pending := pending s @ [AwaitMarkAsRead ws uid uname senderId (Inl err)]\<rparr>
                   | Inr (modifiedCount, s1) \<Rightarrow>
                       s1\<lparr>pending := pending s1 @
                            [AwaitMarkAsRead ws uid uname senderId (Inr modifiedCount)]\<rparr>)))"

definition afterMarkAsRead ::
  "conn \<Rightarrow> identity \<Rightarrow> string \<Rightarrow> string \<Rightarrow> js_error + nat \<Rightarrow> time \<Rightarrow> server \<Rightarrow> server" where
  "afterMarkAsRead ws uid uname senderId outcome now s =
     (case outcome of
        Inl err \<Rightarrow> sendError ws ''Failed to mark messages as read.'' now s
      | Inr modifiedCount \<Rightarrow>
          let s2 = (case map_of (connectedClients s) senderId of
                      None \<Rightarrow> s
                    | Some senderConnection \<Rightarrow>
                        if ws_readyState s senderConnection = OPEN
                        then sendToClient senderConnection (MessagesRead uid uname now) s
                        else s)
          in sendToClient ws (MarkReadSuccess senderId modifiedCount) s2)"

definition handleMessage ::
  "conn \<Rightarrow> identity \<Rightarrow> string \<Rightarrow> string option \<Rightarrow> data option \<Rightarrow> bool \<Rightarrow> time \<Rightarrow> server
     \<Rightarrow> js_error + server" where
  "handleMessage ws uid uname type dat storeFails now s =
     (if type = Some ''chat_message'' then handleChatMessage ws uid uname dat storeFails now s
      else if type = Some ''typing_start'' then handleTypingIndicator ws uid uname dat True now s
      else if type = Some ''typing_stop'' then handleTypingIndicator ws uid uname dat False now s
      else if type = Some ''mark_read'' then handleMarkRead ws uid uname dat storeFails now s
      else if type = Some ''get_online_users'' then Inr (sendOnlineUsersToClient ws storeFails s)
      else Inr (sendError ws
             (''Unknown message type: '' @ (case type of None \<Rightarrow> ''undefined'' | Some t \<Rightarrow> t))
             now s))"

text \<open>\<^verbatim>\<open>ws.on('message', ...)\<close>: parse, route, and catch whatever is thrown.\<close>

definition onMessage ::
  "conn \<Rightarrow> identity \<Rightarrow> string \<Rightarrow> inbound \<Rightarrow> bool \<Rightarrow> time \<Rightarrow> server \<Rightarrow> server" where
  "onMessage ws uid uname raw storeFails now s =
     (case raw of
        Unparseable \<Rightarrow> sendError ws ''Invalid message format. Please send valid JSON.'' now s
      | Envelope type dat \<Rightarrow>
          (case handleMessage ws uid uname type dat storeFails now s of
             Inl err \<Rightarrow> sendError ws ''Invalid message format. Please send valid JSON.'' now s
           | Inr s' \<Rightarrow> s'))"

text \<open>The continuation of a suspended handler.\<close>

fun resume :: "task \<Rightarrow> bool \<Rightarrow> time \<Rightarrow> server \<Rightarrow> server" where
  "resume (AwaitCreate locals outcome) storeFails now s =
     afterCreate locals outcome storeFails now s"
| "resume (AwaitPopulate locals newMessage rejected) storeFails now s =
     afterPopulate locals newMessage rejected storeFails now s"
| "resume (AwaitStatusUpdate locals newMessage rejected) storeFails now s =
     afterStatusUpdate locals newMessage rejected now s"
| "resume (AwaitMarkAsRead ws uid uname senderId outcome) storeFails now s =
     afterMarkAsRead ws uid uname senderId outcome now s"
| "resume (AwaitFindOnline ws outcome) storeFails now s = afterFindOnline ws outcome now s"

section \<open>Disconnect handler and heartbeat\<close>

text \<open>\<^verbatim>\<open>ws.on('close', ...)\<close>\<close>

definition onClose :: "conn \<Rightarrow> identity \<Rightarrow> string \<Rightarrow> time \<Rightarrow> server \<Rightarrow> server" where
  "onClose ws uid uname now s =
     (let s1 = s\<lparr>connectedClients := AList.delete uid (connectedClients s)\<rparr>;
          s2 = User_findByIdAndUpdate uid (\<lambda>u. u\<lparr>isOnline := False, lastSeen := now\<rparr>) s1;
          s3 = broadcastUserStatus uid uname False now s2
      in broadcastOnlineUsers now s3)"

text \<open>One tick of the heartbeat interval over \<^verbatim>\<open>wss.clients\<close>.\<close>

primrec heartbeat :: "conn list \<Rightarrow> server \<Rightarrow> server" where
  "heartbeat [] s = s"
| "heartbeat (ws # rest) s =
     heartbeat rest
       (case sockets s ws of
          None \<Rightarrow> s
        | Some sk \<Rightarrow>
            if isAlive sk = Some False then ws_terminate ws s
            else s\<lparr>sockets := (sockets s)(ws \<mapsto> sk\<lparr>isAlive := Some False\<rparr>)\<rparr>)"

section \<open>Events\<close>

text \<open>
  One step of the event loop. A connection event brings a fresh socket, which the
  library has opened and added to \<^verbatim>\<open>wss.clients\<close>. The close event of a socket fires
  once: the library marks the socket closed and drops it from \<^verbatim>\<open>wss.clients\<close>, then
  the listener runs if one is attached. The resumption of a suspended handler takes it
  out of the suspended ones and runs it to its next await or to its end. An event that
  cannot occur in the state leaves it as it is.
\<close>

definition newSocket :: socket where
  "newSocket = \<lparr>readyState = OPEN, userId = None, username = None, isAlive = None,
                closeCode = None, listening = False, transportUp = True\<rparr>"

fun step :: "(string \<Rightarrow> identity option) \<Rightarrow> event \<Rightarrow> server \<Rightarrow> server" where
  "step verifyToken (Connection ws token dbFails now) s =
     (case sockets s ws of
        Some sk \<Rightarrow> s
      | None \<Rightarrow>
          onConnection verifyToken ws token dbFails now
            (s\<lparr>sockets := (sockets s)(ws \<mapsto> newSocket), clients := clients s @ [ws]\<rparr>))"
| "step verifyToken (Message ws raw storeFails now) s =
     (case sockets s ws of
        None \<Rightarrow> s
      | Some sk \<Rightarrow>
          (case (userId sk, username sk) of
             (Some uid, Some uname) \<Rightarrow>
               if listening sk \<and> readyState sk \<noteq> CLOSED
               then onMessage ws uid uname raw storeFails now s
               else s
           | _ \<Rightarrow> s))"
| "step verifyToken (Resume i storeFails now) s =
     (if i < length (pending s)
      then resume (pending s ! i) storeFails now
             (s\<lparr>pending := take i (pending s) @ drop (Suc i) (pending s)\<rparr>)
      else s)"
| "step verifyToken (Close ws now) s =
     (case sockets s ws of
        None \<Rightarrow> s
      | Some sk \<Rightarrow>
          if readyState sk = CLOSED then s
          else
            (let s1 = s\<lparr>sockets := (sockets s)(ws \<mapsto> sk\<lparr>readyState := CLOSED\<rparr>),
                        clients := removeAll ws (clients s)\<rparr>
             in case (userId sk, username sk) of
                  (Some uid, Some uname) \<Rightarrow>
                    if listening sk then onClose ws uid uname now s1 else s1
                | _ \<Rightarrow> s1))"
| "step verifyToken (Pong ws) s =
     (case sockets s ws of
        None \<Rightarrow> s
      | Some sk \<Rightarrow>
          if listening sk \<and> readyState sk \<noteq> CLOSED
          then s\<lparr>sockets := (sockets s)(ws \<mapsto> sk\<lparr>isAlive := Some True\<rparr>)\<rparr>
          else s)"
| "step verifyToken Heartbeat s = heartbeat (clients s) s"
| "step verifyToken (TransportDown ws) s =
     (case sockets s ws of
        None \<Rightarrow> s
      | Some sk \<Rightarrow> s\<lparr>sockets := (sockets s)(ws \<mapsto> sk\<lparr>transportUp := False\<rparr>)\<rparr>)"

primrec run :: "(string \<Rightarrow> identity option) \<Rightarrow> event list \<Rightarrow> server \<Rightarrow> server" where
  "run verifyToken [] s = s"
| "run verifyToken (e # es) s = run verifyToken es (step verifyToken e s)"

text \<open>
  The server starts with no connection, nothing written and no handler suspended; the
  store holds any users and any messages, the message identifiers being those the
  model's \<open>Message_create\<close> hands out.
\<close>

definition initial :: "server \<Rightarrow> bool" where
  "initial s \<longleftrightarrow>
     connectedClients s = [] \<and> sockets s = Map.empty \<and> clients s = [] \<and> wire s = [] \<and>
     lost s = [] \<and> pending s = [] \<and>
     map m_id (messages s) = [0..<length (messages s)]"

inductive reachable :: "(string \<Rightarrow> identity option) \<Rightarrow> server \<Rightarrow> bool"
  for verifyToken :: "string \<Rightarrow> identity option" where
  start: "initial s \<Longrightarrow> reachable verifyToken s"
| next_event: "reachable verifyToken s \<Longrightarrow> reachable verifyToken (step verifyToken e s)"

section \<open>Notions used in the statements\<close>

text \<open>
  \<open>passes guard s c\<close>: the socket \<open>c\<close> exists and satisfies the guard of a broadcast
  loop. \<open>message_ids\<close>: the identifiers of the stored messages are their positions in
  the collection. \<open>registry_sound\<close>: a registry entry leads to a socket that carries the
  entry's identity. \<open>status_rank\<close> orders the delivery status along sent, delivered,
  read.
\<close>

definition passes :: "(socket \<Rightarrow> bool) \<Rightarrow> server \<Rightarrow> conn \<Rightarrow> bool" where
  "passes g s c = (case sockets s c of Some sk \<Rightarrow> g sk | None \<Rightarrow> False)"

definition message_ids :: "server \<Rightarrow> bool" where
  "message_ids s \<longleftrightarrow> map m_id (messages s) = [0..<length (messages s)]"

definition registry_sound :: "server \<Rightarrow> bool" where
  "registry_sound s \<longleftrightarrow>
     (\<forall>k c. map_of (connectedClients s) k = Some c \<longrightarrow> ws_userId s c = Some k)"

fun status_rank :: "msg_status \<Rightarrow> nat" where
  "status_rank Sent = 0"
| "status_rank Delivered = 1"
| "status_rank Read = 2"

section \<open>A concrete deployment\<close>

text \<open>
  Three users, a credential verifier that knows a token for each of them and one for an
  identity without a user document, the payloads of some client envelopes, and the
  states that the event sequences used below lead to. The text \<open>hi\<close> is the content
  "hi" in code units.
\<close>

definition alice :: identity where "alice = ''65a1f0c2b3d4e5f60718293a''"
definition bob :: identity where "bob = ''65a1f0c2b3d4e5f60718293b''"
definition carol :: identity where "carol = ''65a1f0c2b3d4e5f60718293c''"

definition demo_verify :: "string \<Rightarrow> identity option" where
  "demo_verify tok =
     (if tok = ''jwt-alice'' then Some alice
      else if tok = ''jwt-bob'' then Some bob
      else if tok = ''jwt-carol'' then Some carol
      else if tok = ''jwt-ghost'' then Some ''65a1f0c2b3d4e5f60718293d''
      else None)"

definition demo_user :: "identity \<Rightarrow> string \<Rightarrow> user_doc" where
  "demo_user uid uname = \<lparr>u_id = uid, u_username = uname, u_avatar = None, isOnline = False, lastSeen = 0\<rparr>"

definition demo0 :: server where
  "demo0 = \<lparr>connectedClients = [], sockets = Map.empty, clients = [],
             users = [demo_user alice ''alice'', demo_user bob ''bob'', demo_user carol ''carol''],
             messages = [], wire = [], lost = [], pending = []\<rparr>"

definition demo1 :: server where
  "demo1 = step demo_verify (Connection 1 (Some ''jwt-alice'') False 100) demo0"

definition demo2 :: server where
  "demo2 = step demo_verify (Connection 2 (Some ''jwt-bob'') False 101) demo1"

definition demo_twice :: server where
  "demo_twice = step demo_verify (Connection 2 (Some ''jwt-alice'') False 101) demo1"

definition demo_late :: server where
  "demo_late = step demo_verify (Close 1 102) demo_twice"





definition hi :: utf16 where "hi = [0x68, 0x69]"

definition chat_data :: "string \<Rightarrow> utf16 \<Rightarrow> string option \<Rightarrow> data" where
  "chat_data r c mt = \<lparr>d_receiverId = Some r, d_content = Some c, d_messageType = mt,
     d_senderId = None\<rparr>"

definition chat :: "string \<Rightarrow> utf16 \<Rightarrow> string option \<Rightarrow> inbound" where
  "chat r c mt = Envelope (Some ''chat_message'') (Some (chat_data r c mt))"

definition read_data :: "string \<Rightarrow> data" where
  "read_data a = \<lparr>d_receiverId = None, d_content = None, d_messageType = None,
     d_senderId = Some a\<rparr>"

definition mark_read :: "string \<Rightarrow> inbound" where
  "mark_read a = Envelope (Some ''mark_read'') (Some (read_data a))"

definition hi_message :: "nat \<Rightarrow> time \<Rightarrow> message_doc" where
  "hi_message i t = \<lparr>m_id = i, sender = alice, receiver = bob, content = hi,
     messageType = ''text'', isRead = False, readAt = None, status = Sent, createdAt = t\<rparr>"

text \<open>The identifiers of Alice and Bob with their digits in upper case.\<close>

definition alice_upper :: string where "alice_upper = ''65A1F0C2B3D4E5F60718293A''"
definition bob_upper :: string where "bob_upper = ''65A1F0C2B3D4E5F60718293B''"





section \<open>Effects of the utility functions\<close>

lemma ws_send_frame [simp]:
  "connectedClients (ws_send ws m s) = connectedClients s"
  "sockets (ws_send ws m s) = sockets s"
  "clients (ws_send ws m s) = clients s"
  "users (ws_send ws m s) = users s"
  "messages (ws_send ws m s) = messages s"
  "pending (ws_send ws m s) = pending s"
  by (simp_all add: ws_send_def)

lemma ws_send_wire: "wire (ws_send ws m s) = wire s @ [(ws, m)]"
  by (simp add: ws_send_def)

lemma ws_send_lost:
  "lost (ws_send ws m s) = lost s @ (if ws_transportUp s ws then [] else [(ws, m)])"
  by (simp add: ws_send_def)

lemma sendToClient_frame [simp]:
  "connectedClients (sendToClient ws m s) = connectedClients s"
  "sockets (sendToClient ws m s) = sockets s"
  "clients (sendToClient ws m s) = clients s"
  "users (sendToClient ws m s) = users s"
  "messages (sendToClient ws m s) = messages s"
  "pending (sendToClient ws m s) = pending s"
  by (simp_all add: sendToClient_def)

lemma sendToClient_wire:
  "wire (sendToClient ws m s) = wire s @ (if ws_readyState s ws = OPEN then [(ws, m)] else [])"
  by (simp add: sendToClient_def ws_send_wire)

lemma sendToClient_lost:
  "lost (sendToClient ws m s) =
     lost s @ (if ws_readyState s ws = OPEN \<and> \<not> ws_transportUp s ws then [(ws, m)] else [])"
  by (simp add: sendToClient_def ws_send_lost)

lemma sendError_frame [simp]:
  "connectedClients (sendError ws t now s) = connectedClients s"
  "sockets (sendError ws t now s) = sockets s"
  "clients (sendError ws t now s) = clients s"
  "users (sendError ws t now s) = users s"
  "messages (sendError ws t now s) = messages s"
  "pending (sendError ws t now s) = pending s"
  by (simp_all add: sendError_def)

lemma sendError_wire:
  "wire (sendError ws t now s) = wire s @ (if ws_readyState s ws = OPEN then [(ws, Error t now)] else [])"
  by (simp add: sendError_def sendToClient_wire)

lemma forEach_send_frame [simp]:
  "connectedClients (forEach_send g m cs s) = connectedClients s"
  "sockets (forEach_send g m cs s) = sockets s"
  "clients (forEach_send g m cs s) = clients s"
  "users (forEach_send g m cs s) = users s"
  "messages (forEach_send g m cs s) = messages s"
  "pending (forEach_send g m cs s) = pending s"
  by (induction cs arbitrary: s; simp split: option.splits)+

lemma passes_same: "sockets s' = sockets s \<Longrightarrow> passes g s' = passes g s"
  by (simp add: passes_def fun_eq_iff)

lemma ws_transportUp_same: "sockets s' = sockets s \<Longrightarrow> ws_transportUp s' = ws_transportUp s"
  by (simp add: ws_transportUp_def fun_eq_iff)

lemma forEach_send_wire:
  "wire (forEach_send g m cs s) = wire s @ map (\<lambda>c. (c, m)) (filter (passes g s) cs)"
proof (induction cs arbitrary: s)
  case Nil
  show ?case by simp
next
  case (Cons c cs)
  have same: "passes g (ws_send c m s) = passes g s"
    by (rule passes_same) simp
  show ?case
    by (cases "sockets s c") (simp_all add: Cons.IH same passes_def ws_send_wire)
qed

lemma forEach_send_lost:
  "lost (forEach_send g m cs s) =
     lost s @ map (\<lambda>c. (c, m)) (filter (\<lambda>c. passes g s c \<and> \<not> ws_transportUp s c) cs)"
proof (induction cs arbitrary: s)
  case Nil
  show ?case by simp
next
  case (Cons c cs)
  have same: "passes g (ws_send c m s) = passes g s"
    "ws_transportUp (ws_send c m s) = ws_transportUp s"
    by (rule passes_same, simp) (rule ws_transportUp_same, simp)
  show ?case
    by (cases "sockets s c") (simp_all add: Cons.IH same passes_def ws_send_lost)
qed

lemma ws_close_frame [simp]:
  "connectedClients (ws_close ws code s) = connectedClients s"
  "clients (ws_close ws code s) = clients s"
  "users (ws_close ws code s) = users s"
  "messages (ws_close ws code s) = messages s"
  "wire (ws_close ws code s) = wire s"
  "lost (ws_close ws code s) = lost s"
  "pending (ws_close ws code s) = pending s"
  by (simp_all add: ws_close_def split: option.splits)

lemma ws_terminate_frame [simp]:
  "connectedClients (ws_terminate ws s) = connectedClients s"
  "clients (ws_terminate ws s) = clients s"
  "users (ws_terminate ws s) = users s"
  "messages (ws_terminate ws s) = messages s"
  "wire (ws_terminate ws s) = wire s"
  "lost (ws_terminate ws s) = lost s"
  "pending (ws_terminate ws s) = pending s"
  by (simp_all add: ws_terminate_def split: option.splits)

lemma broadcastUserStatus_frame [simp]:
  "connectedClients (broadcastUserStatus uid uname b now s) = connectedClients s"
  "sockets (broadcastUserStatus uid uname b now s) = sockets s"
  "clients (broadcastUserStatus uid uname b now s) = clients s"
  "users (broadcastUserStatus uid uname b now s) = users s"
  "messages (broadcastUserStatus uid uname b now s) = messages s"
  "pending (broadcastUserStatus uid uname b now s) = pending s"
  by (simp_all add: broadcastUserStatus_def)

lemma broadcastOnlineUsers_frame [simp]:
  "connectedClients (broadcastOnlineUsers now s) = connectedClients s"
  "sockets (broadcastOnlineUsers now s) = sockets s"
  "clients (broadcastOnlineUsers now s) = clients s"
  "users (broadcastOnlineUsers now s) = users s"
  "messages (broadcastOnlineUsers now s) = messages s"
  "pending (broadcastOnlineUsers now s) = pending s"
  by (simp_all add: broadcastOnlineUsers_def Let_def)

lemma User_findByIdAndUpdate_frame [simp]:
  "connectedClients (User_findByIdAndUpdate uid f s) = connectedClients s"
  "sockets (User_findByIdAndUpdate uid f s) = sockets s"
  "clients (User_findByIdAndUpdate uid f s) = clients s"
  "messages (User_findByIdAndUpdate uid f s) = messages s"
  "wire (User_findByIdAndUpdate uid f s) = wire s"
  "lost (User_findByIdAndUpdate uid f s) = lost s"
  "pending (User_findByIdAndUpdate uid f s) = pending s"
  by (simp_all add: User_findByIdAndUpdate_def)

lemma heartbeat_frame [simp]:
  "connectedClients (heartbeat cs s) = connectedClients s"
  "clients (heartbeat cs s) = clients s"
  "users (heartbeat cs s) = users s"
  "messages (heartbeat cs s) = messages s"
  "wire (heartbeat cs s) = wire s"
  "lost (heartbeat cs s) = lost s"
  "pending (heartbeat cs s) = pending s"
  by (induction cs arbitrary: s; simp split: option.splits)+

lemma onClose_registry [simp]:
  "connectedClients (onClose ws uid uname now s) = AList.delete uid (connectedClients s)"
  by (simp add: onClose_def Let_def)

lemma onClose_frame [simp]:
  "sockets (onClose ws uid uname now s) = sockets s"
  "clients (onClose ws uid uname now s) = clients s"
  "messages (onClose ws uid uname now s) = messages s"
  by (simp_all add: onClose_def Let_def)

lemma onConnection_registry:
  "connectedClients (onConnection vt ws token dbFails now s) =
     (case token of None \<Rightarrow> connectedClients s
      | Some tok \<Rightarrow>
          if tok = [] \<or> dbFails then connectedClients s
          else (case vt tok of None \<Rightarrow> connectedClients s
                | Some did \<Rightarrow>
                    (case User_findById did s of None \<Rightarrow> connectedClients s
                     | Some user \<Rightarrow>
                         (case sockets s ws of None \<Rightarrow> connectedClients s
                          | Some sk \<Rightarrow> AList.update (u_id user) ws (connectedClients s)))))"
  by (simp add: onConnection_def Let_def split: option.splits)

lemma onConnection_frame [simp]:
  "clients (onConnection vt ws token dbFails now s) = clients s"
  "messages (onConnection vt ws token dbFails now s) = messages s"
  by (simp_all add: onConnection_def Let_def split: option.splits)


section \<open>Effects of the store calls and of the message handlers\<close>

lemma Message_create_frame:
  assumes "Message_create a b c mt st now s = Inr (m, s1)"
  shows "connectedClients s1 = connectedClients s" "sockets s1 = sockets s"
    "clients s1 = clients s" "users s1 = users s" "wire s1 = wire s"
    "messages s1 = messages s @ [m]" "m_id m = length (messages s)" "status m = st"
    "isRead m = False" "readAt m = None" "createdAt m = now"
    "pending s1 = pending s" "lost s1 = lost s"
  using assms by (auto simp add: Message_create_def Let_def split: if_splits option.splits)


lemma Message_findByIdAndUpdate_frame [simp]:
  "connectedClients (Message_findByIdAndUpdate i st s) = connectedClients s"
  "sockets (Message_findByIdAndUpdate i st s) = sockets s"
  "clients (Message_findByIdAndUpdate i st s) = clients s"
  "users (Message_findByIdAndUpdate i st s) = users s"
  "wire (Message_findByIdAndUpdate i st s) = wire s"
  "lost (Message_findByIdAndUpdate i st s) = lost s"
  "pending (Message_findByIdAndUpdate i st s) = pending s"
  by (simp_all add: Message_findByIdAndUpdate_def)


lemma Message_markAsRead_frame:
  assumes "Message_markAsRead a b now s = Inr (n, s1)"
  shows "connectedClients s1 = connectedClients s" "sockets s1 = sockets s"
    "clients s1 = clients s" "users s1 = users s" "wire s1 = wire s"
    "pending s1 = pending s" "lost s1 = lost s"
    "map m_id (messages s1) = map m_id (messages s)"
  using assms
  by (auto simp add: Message_markAsRead_def o_def if_distrib split: option.splits cong: if_cong)

lemma handleChatMessage_frame:
  assumes "handleChatMessage ws uid uname dat storeFails now s = Inr s'"
  shows "connectedClients s' = connectedClients s \<and> sockets s' = sockets s \<and>
         clients s' = clients s \<and> users s' = users s"
  using assms
  by (auto simp add: handleChatMessage_def Let_def dest: Message_create_frame(1-4)
      split: option.splits if_splits sum.splits prod.splits)

lemma handleTypingIndicator_frame:
  assumes "handleTypingIndicator ws uid uname dat b now s = Inr s'"
  shows "connectedClients s' = connectedClients s \<and> sockets s' = sockets s \<and>
         clients s' = clients s \<and> users s' = users s \<and> messages s' = messages s"
  using assms
  by (auto simp add: handleTypingIndicator_def split: option.splits if_splits)

lemma handleMarkRead_frame:
  assumes "handleMarkRead ws uid uname dat storeFails now s = Inr s'"
  shows "connectedClients s' = connectedClients s \<and> sockets s' = sockets s \<and>
         clients s' = clients s \<and> users s' = users s"
  using assms
  by (auto simp add: handleMarkRead_def Let_def dest: Message_markAsRead_frame(1-4)
      split: option.splits if_splits sum.splits prod.splits)

lemma handleMessage_frame:
  assumes "handleMessage ws uid uname type dat storeFails now s = Inr s'"
  shows "connectedClients s' = connectedClients s \<and> sockets s' = sockets s \<and>
         clients s' = clients s \<and> users s' = users s"
  using assms handleChatMessage_frame [of ws uid uname dat storeFails now s s']
    handleTypingIndicator_frame [of ws uid uname dat _ now s s']
    handleMarkRead_frame [of ws uid uname dat storeFails now s s']
  by (auto simp add: handleMessage_def sendOnlineUsersToClient_def split: if_splits)

lemma onMessage_frame [simp]:
  "connectedClients (onMessage ws uid uname raw storeFails now s) = connectedClients s"
  "sockets (onMessage ws uid uname raw storeFails now s) = sockets s"
  "clients (onMessage ws uid uname raw storeFails now s) = clients s"
  "users (onMessage ws uid uname raw storeFails now s) = users s"
  using handleMessage_frame [of ws uid uname _ _ storeFails now s]
  by (auto simp add: onMessage_def split: inbound.splits sum.splits)

lemma afterPopulate_frame [simp]:
  "connectedClients (afterPopulate l m r f now s) = connectedClients s"
  "sockets (afterPopulate l m r f now s) = sockets s"
  "clients (afterPopulate l m r f now s) = clients s"
  "users (afterPopulate l m r f now s) = users s"
  by (simp_all add: afterPopulate_def Let_def split: option.splits)

lemma resume_frame [simp]:
  "connectedClients (resume t storeFails now s) = connectedClients s"
  "sockets (resume t storeFails now s) = sockets s"
  "clients (resume t storeFails now s) = clients s"
  "users (resume t storeFails now s) = users s"
  by (cases t; simp add: afterCreate_def afterStatusUpdate_def afterMarkAsRead_def
        afterFindOnline_def Let_def split: sum.splits option.splits)+

lemma ws_userId_same: "sockets s' = sockets s \<Longrightarrow> ws_userId s' c = ws_userId s c"
  by (simp add: ws_userId_def)

lemma ws_close_userId [simp]: "ws_userId (ws_close c code s) x = ws_userId s x"
  by (simp add: ws_userId_def ws_close_def split: option.splits)

lemma ws_terminate_userId [simp]: "ws_userId (ws_terminate c s) x = ws_userId s x"
  by (simp add: ws_userId_def ws_terminate_def split: option.splits)

lemma heartbeat_userId [simp]: "ws_userId (heartbeat cs s) x = ws_userId s x"
proof (induction cs arbitrary: s)
  case Nil
  show ?case by simp
next
  case (Cons c cs)
  show ?case
    by (cases "sockets s c") (simp_all add: Cons.IH, simp add: ws_userId_def)
qed

lemma onConnection_userId_other:
  "x \<noteq> ws \<Longrightarrow> ws_userId (onConnection vt ws token dbFails now s) x = ws_userId s x"
  by (simp add: onConnection_def Let_def ws_userId_def ws_close_def sendError_def sendToClient_def
      split: option.splits)

lemma onConnection_userId_self:
  assumes "sockets s ws = Some sk" "tok \<noteq> []" "vt tok = Some did"
    "User_findById did s = Some user"
  shows "ws_userId (onConnection vt ws (Some tok) False now s) ws = Some (u_id user)"
  using assms
  by (simp add: onConnection_def Let_def ws_userId_def ws_close_def split: option.splits)

section \<open>Invariants of the reachable states\<close>



lemma registry_soundD:
  "registry_sound s \<Longrightarrow> map_of (connectedClients s) k = Some c \<Longrightarrow> ws_userId s c = Some k"
  by (simp add: registry_sound_def)

lemma onConnection_registry_cases:
  "connectedClients (onConnection vt ws token dbFails now s) = connectedClients s \<or>
   (\<exists>tok did user. token = Some tok \<and> tok \<noteq> [] \<and> \<not> dbFails \<and> vt tok = Some did \<and>
      User_findById did s = Some user \<and>
      connectedClients (onConnection vt ws token dbFails now s) =
        AList.update (u_id user) ws (connectedClients s))"
  by (cases token; cases dbFails; simp add: onConnection_registry split: option.splits)

lemma registry_sound_step:
  assumes inv: "registry_sound s"
  shows "registry_sound (step vt e s)"
proof (cases e)
  case (Connection ws token dbFails now)
  show ?thesis
  proof (cases "sockets s ws")
    case (Some sk)
    with Connection inv show ?thesis by simp
  next
    case None
    define s0 where "s0 = s\<lparr>sockets := (sockets s)(ws \<mapsto> newSocket), clients := clients s @ [ws]\<rparr>"
    have st: "step vt e s = onConnection vt ws token dbFails now s0"
      using Connection None by (simp add: s0_def)
    have fresh: "c \<noteq> ws" if "map_of (connectedClients s) k = Some c" for k c
      using registry_soundD [OF inv that] None by (auto simp add: ws_userId_def)
    have old: "ws_userId s0 c = ws_userId s c" if "c \<noteq> ws" for c
      using that by (simp add: s0_def ws_userId_def)
    have reg0: "connectedClients s0 = connectedClients s" by (simp add: s0_def)
    have sk0: "sockets s0 ws = Some newSocket" by (simp add: s0_def)
    show ?thesis
      unfolding registry_sound_def
    proof (intro allI impI)
      fix k c
      assume mem: "map_of (connectedClients (step vt e s)) k = Some c"
      show "ws_userId (step vt e s) c = Some k"
      proof (cases "connectedClients (step vt e s) = connectedClients s")
        case True
        with mem have m: "map_of (connectedClients s) k = Some c" by simp
        then have "c \<noteq> ws" by (rule fresh)
        then show ?thesis
          using registry_soundD [OF inv m] by (simp add: st onConnection_userId_other old)
      next
        case False
        have neq: "connectedClients (onConnection vt ws token dbFails now s0) \<noteq> connectedClients s0"
          using False unfolding st reg0 .
        have "\<exists>tok did user. token = Some tok \<and> tok \<noteq> [] \<and> \<not> dbFails \<and> vt tok = Some did \<and>
            User_findById did s0 = Some user \<and>
            connectedClients (onConnection vt ws token dbFails now s0) =
              AList.update (u_id user) ws (connectedClients s0)"
          using onConnection_registry_cases [of vt ws token dbFails now s0] neq by blast
        then obtain tok did user where
          tk: "token = Some tok" "tok \<noteq> []" "\<not> dbFails" "vt tok = Some did"
            "User_findById did s0 = Some user"
          and reg': "connectedClients (onConnection vt ws token dbFails now s0) =
              AList.update (u_id user) ws (connectedClients s0)"
          by blast
        have reg: "connectedClients (step vt e s) = AList.update (u_id user) ws (connectedClients s)"
          using reg' unfolding st reg0 .
        have "map_of (AList.update (u_id user) ws (connectedClients s)) k = Some c"
          using mem unfolding reg .
        then have upd: "((map_of (connectedClients s))(u_id user \<mapsto> ws)) k = Some c"
          by (simp only: update_conv')
        consider "k = u_id user" "c = ws" | "map_of (connectedClients s) k = Some c" "k \<noteq> u_id user"
          using upd by (cases "k = u_id user") simp_all
        then show ?thesis
        proof cases
          case 1
          have "ws_userId (onConnection vt ws (Some tok) False now s0) ws = Some (u_id user)"
            using sk0 tk(2) tk(4) tk(5) by (rule onConnection_userId_self)
          then show ?thesis using 1 tk(1,3) by (simp add: st)
        next
          case 2
          then have "c \<noteq> ws" using fresh by blast
          then show ?thesis
            using registry_soundD [OF inv 2(1)] by (simp add: st onConnection_userId_other old)
        qed
      qed
    qed
  qed
next
  case (Message ws raw storeFails now)
  have "registry_sound (onMessage ws uid uname raw storeFails now s)" for uid uname
    using inv
    by (simp add: registry_sound_def ws_userId_same [of "onMessage ws uid uname raw storeFails now s" s])
  then show ?thesis using Message inv by (auto split: option.splits)
next
  case (Resume i storeFails now)
  have "registry_sound (resume t storeFails now (s\<lparr>pending := p\<rparr>))" for t p
    using inv
    by (simp add: registry_sound_def
        ws_userId_same [of "resume t storeFails now (s\<lparr>pending := p\<rparr>)" s])
  then show ?thesis using Resume inv by simp
next
  case (Close ws now)
  show ?thesis
    unfolding registry_sound_def
  proof (intro allI impI)
    fix k c
    assume mem: "map_of (connectedClients (step vt e s)) k = Some c"
    have sub: "map_of (connectedClients s) k = Some c"
      using mem Close by (auto simp add: Let_def delete_conv' split: option.splits if_splits)
    have "ws_userId (step vt e s) c = ws_userId s c"
      using Close by (auto simp add: Let_def ws_userId_def split: option.splits)
    then show "ws_userId (step vt e s) c = Some k"
      using registry_soundD [OF inv sub] by simp
  qed
next
  case (Pong ws)
  then show ?thesis using inv
    by (auto simp add: registry_sound_def ws_userId_def split: option.splits)
next
  case Heartbeat
  then show ?thesis using inv by (simp add: registry_sound_def)
next
  case (TransportDown ws)
  then show ?thesis using inv
    by (auto simp add: registry_sound_def ws_userId_def split: option.splits)
qed

lemma reachable_registry_sound: "reachable vt s \<Longrightarrow> registry_sound s"
proof (induction rule: reachable.induct)
  case (start s)
  then show ?case by (simp add: initial_def registry_sound_def)
next
  case (next_event s e)
  then show ?case by (simp add: registry_sound_step)
qed




lemma message_ids_sendToClient [simp]: "message_ids (sendToClient ws m s) = message_ids s"
  by (simp add: message_ids_def)

lemma message_ids_sendError [simp]: "message_ids (sendError ws t now s) = message_ids s"
  by (simp add: message_ids_def)

lemma message_ids_pending [simp]: "message_ids (s\<lparr>pending := p\<rparr>) = message_ids s"
  by (simp add: message_ids_def)







section \<open>The connection handler and the close listener\<close>

lemma ws_readyState_same: "sockets s' = sockets s \<Longrightarrow> ws_readyState s' c = ws_readyState s c"
  by (simp add: ws_readyState_def)

lemma passes_status:
  "passes (\<lambda>k. readyState k = OPEN \<and> userId k \<noteq> Some uid) s =
     (\<lambda>c. ws_readyState s c = OPEN \<and> ws_userId s c \<noteq> Some uid)"
  by (rule ext) (simp add: passes_def ws_readyState_def ws_userId_def split: option.splits)

lemma passes_open: "passes (\<lambda>k. readyState k = OPEN) s = (\<lambda>c. ws_readyState s c = OPEN)"
  by (rule ext) (simp add: passes_def ws_readyState_def split: option.splits)

lemma broadcastUserStatus_wire:
  "wire (broadcastUserStatus uid uname online now s) =
     wire s @ map (\<lambda>c. (c, if online then UserOnline uid uname now else UserOffline uid uname now))
                (filter (\<lambda>c. ws_readyState s c = OPEN \<and> ws_userId s c \<noteq> Some uid) (clients s))"
  by (simp add: broadcastUserStatus_def forEach_send_wire passes_status)

lemma broadcastOnlineUsers_wire:
  "wire (broadcastOnlineUsers now s) =
     wire s @ map (\<lambda>c. (c, OnlineUsers (User_findOnline s) (length (User_findOnline s)) now))
                (filter (\<lambda>c. ws_readyState s c = OPEN) (clients s))"
  by (simp add: broadcastOnlineUsers_def Let_def forEach_send_wire passes_open)

lemma broadcastUserStatus_lost:
  "lost (broadcastUserStatus uid uname online now s) =
     lost s @ map (\<lambda>c. (c, if online then UserOnline uid uname now else UserOffline uid uname now))
                (filter (\<lambda>c. ws_readyState s c = OPEN \<and> ws_userId s c \<noteq> Some uid \<and>
                            \<not> ws_transportUp s c) (clients s))"
  by (simp add: broadcastUserStatus_def forEach_send_lost passes_status)

lemma broadcastOnlineUsers_lost:
  "lost (broadcastOnlineUsers now s) =
     lost s @ map (\<lambda>c. (c, OnlineUsers (User_findOnline s) (length (User_findOnline s)) now))
                (filter (\<lambda>c. ws_readyState s c = OPEN \<and> \<not> ws_transportUp s c) (clients s))"
  by (simp add: broadcastOnlineUsers_def Let_def forEach_send_lost passes_open)

lemma User_findOnline_same: "users s' = users s \<Longrightarrow> User_findOnline s' = User_findOnline s"
  by (simp add: User_findOnline_def)

text \<open>The accepted handshake, field by field.\<close>

lemma onConnection_accepted:
  assumes sk: "sockets s ws = Some sk" and op: "readyState sk = OPEN"
    and tok: "tok \<noteq> []" "vt tok = Some did" and usr: "User_findById did s = Some user"
    and noself: "map_of (connectedClients s) (u_id user) \<noteq> Some ws"
    and s'_def: "s' = onConnection vt ws (Some tok) False now s"
  shows "connectedClients s' = AList.update (u_id user) ws (connectedClients s)"
    and "users s' = map (\<lambda>u. if u_id u = u_id user then u\<lparr>isOnline := True\<rparr> else u) (users s)"
    and "clients s' = clients s" and "messages s' = messages s"
    and "ws_readyState s' ws = OPEN" and "ws_userId s' ws = Some (u_id user)"
    and "c \<noteq> ws \<Longrightarrow> ws_userId s' c = ws_userId s c"
    and "map_of (connectedClients s) (u_id user) = Some old \<Longrightarrow>
           ws_readyState s' old \<noteq> OPEN \<and>
           (ws_readyState s old = OPEN \<longrightarrow> ws_readyState s' old = CLOSING \<and> ws_closeCode s' old = Some 4005)"
    and "ws_closeCode s' ws = closeCode sk"
    and "c \<noteq> ws \<Longrightarrow> ws_readyState s c = OPEN \<Longrightarrow> ws_readyState s' c \<noteq> OPEN \<Longrightarrow>
           ws_closeCode s' c = Some 4005"
    and "wire s' = wire s @ [(ws, ConnectionEstablished (u_id user) (u_username user))]
           @ map (\<lambda>c. (c, UserOnline (u_id user) (u_username user) now))
               (filter (\<lambda>c. ws_readyState s' c = OPEN \<and> ws_userId s' c \<noteq> Some (u_id user)) (clients s'))
           @ map (\<lambda>c. (c, OnlineUsers (User_findOnline s') (length (User_findOnline s')) now))
               (filter (\<lambda>c. ws_readyState s' c = OPEN) (clients s'))"
    and "ws_transportUp s' c = ws_transportUp s c"
    and "lost s' = lost s
           @ (if transportUp sk then [] else [(ws, ConnectionEstablished (u_id user) (u_username user))])
           @ map (\<lambda>c. (c, UserOnline (u_id user) (u_username user) now))
               (filter (\<lambda>c. ws_readyState s' c = OPEN \<and> ws_userId s' c \<noteq> Some (u_id user) \<and>
                           \<not> ws_transportUp s' c) (clients s'))
           @ map (\<lambda>c. (c, OnlineUsers (User_findOnline s') (length (User_findOnline s')) now))
               (filter (\<lambda>c. ws_readyState s' c = OPEN \<and> \<not> ws_transportUp s' c) (clients s'))"
    and "pending s' = pending s"
proof -
  define uid where "uid = u_id user"
  define uname where "uname = u_username user"
  define s1 where "s1 = s\<lparr>sockets := (sockets s)(ws \<mapsto>
      sk\<lparr>userId := Some uid, username := Some uname, isAlive := Some True\<rparr>)\<rparr>"
  define s2 where "s2 = (case map_of (connectedClients s1) uid of
      Some oldConnection \<Rightarrow> ws_close oldConnection 4005 s1 | None \<Rightarrow> s1)"
  define s3 where "s3 = s2\<lparr>connectedClients := AList.update uid ws (connectedClients s2)\<rparr>"
  define s4 where "s4 = User_findByIdAndUpdate uid (\<lambda>u. u\<lparr>isOnline := True\<rparr>) s3"
  define s5 where "s5 = sendToClient ws (ConnectionEstablished uid uname) s4"
  define s6 where "s6 = broadcastUserStatus uid uname True now s5"
  define s7 where "s7 = broadcastOnlineUsers now s6"
  have s'_eq: "s' = (case sockets s7 ws of None \<Rightarrow> s7
      | Some sk7 \<Rightarrow> s7\<lparr>sockets := (sockets s7)(ws \<mapsto> sk7\<lparr>listening := True\<rparr>)\<rparr>)"
    unfolding s'_def onConnection_def s7_def s6_def s5_def s4_def s3_def s2_def s1_def uid_def uname_def
    using sk tok usr by (simp add: Let_def)
  have reg1: "connectedClients s1 = connectedClients s" by (simp add: s1_def)
  have ne: "map_of (connectedClients s1) uid \<noteq> Some ws" using noself by (simp add: reg1 uid_def)
  have sock2_ws: "sockets s2 ws = Some (sk\<lparr>userId := Some uid, username := Some uname, isAlive := Some True\<rparr>)"
    using ne by (auto simp add: s2_def s1_def ws_close_def split: option.splits)
  have sock7: "sockets s7 = sockets s2"
    by (simp add: s7_def s6_def s5_def s4_def s3_def)
  obtain sk7 where sk7: "sockets s7 ws = Some sk7" "readyState sk7 = OPEN" "userId sk7 = Some uid"
    using sock2_ws op by (simp add: sock7)
  have s'7: "s' = s7\<lparr>sockets := (sockets s7)(ws \<mapsto> sk7\<lparr>listening := True\<rparr>)\<rparr>"
    using s'_eq sk7 by simp
  have rs: "ws_readyState s' c = ws_readyState s2 c" for c
    using sk7 by (simp add: s'7 ws_readyState_def sock7 [symmetric])
  have ui: "ws_userId s' c = ws_userId s2 c" for c
    using sk7 by (simp add: s'7 ws_userId_def sock7 [symmetric])
  have ui2: "ws_userId s2 c = ws_userId s1 c" for c
    by (simp add: s2_def split: option.splits)
  show "connectedClients s' = AList.update (u_id user) ws (connectedClients s)"
    by (simp add: s'7 s7_def s6_def s5_def s4_def s3_def s2_def reg1 uid_def split: option.splits)
  have us: "users s' = map (\<lambda>u. if u_id u = u_id user then u\<lparr>isOnline := True\<rparr> else u) (users s)"
    by (simp add: s'7 s7_def s6_def s5_def s4_def s3_def s2_def s1_def User_findByIdAndUpdate_def uid_def
        split: option.splits)
  then show "users s' = map (\<lambda>u. if u_id u = u_id user then u\<lparr>isOnline := True\<rparr> else u) (users s)" .
  have cl2: "clients s2 = clients s"
    by (simp add: s2_def s1_def split: option.splits)
  show cl: "clients s' = clients s"
    by (simp add: s'7 s7_def s6_def s5_def s4_def s3_def cl2)
  show "messages s' = messages s"
    by (simp add: s'7 s7_def s6_def s5_def s4_def s3_def s2_def s1_def split: option.splits)
  show "ws_readyState s' ws = OPEN" using sk7 by (simp add: s'7 ws_readyState_def)
  show "ws_userId s' ws = Some (u_id user)" using sk7 by (simp add: s'7 ws_userId_def uid_def)
  show "ws_userId s' c = ws_userId s c" if "c \<noteq> ws"
    using that by (simp add: ui ui2) (simp add: s1_def ws_userId_def)
  show "ws_readyState s' old \<noteq> OPEN \<and>
        (ws_readyState s old = OPEN \<longrightarrow> ws_readyState s' old = CLOSING \<and> ws_closeCode s' old = Some 4005)"
    if old: "map_of (connectedClients s) (u_id user) = Some old"
  proof -
    have "old \<noteq> ws" using old noself by auto
    then have "sockets s1 old = sockets s old" by (simp add: s1_def)
    moreover have "s2 = ws_close old 4005 s1" using old by (simp add: s2_def reg1 uid_def)
    moreover have "sockets s' old = sockets s2 old"
      using \<open>old \<noteq> ws\<close> by (simp add: s'7 sock7)
    ultimately show ?thesis
      by (auto simp add: ws_readyState_def ws_closeCode_def ws_close_def split: option.splits)
  qed
  have "sk7 = sk\<lparr>userId := Some uid, username := Some uname, isAlive := Some True\<rparr>"
    using sk7(1) sock2_ws by (simp add: sock7)
  then have "closeCode sk7 = closeCode sk" by simp
  then show "ws_closeCode s' ws = closeCode sk"
    by (simp add: s'7 ws_closeCode_def)
  show "ws_closeCode s' c = Some 4005"
    if "c \<noteq> ws" "ws_readyState s c = OPEN" "ws_readyState s' c \<noteq> OPEN"
  proof -
    have 1: "sockets s1 c = sockets s c" using that(1) by (simp add: s1_def)
    have 2: "sockets s' c = sockets s2 c" using that(1) by (simp add: s'7 sock7)
    show ?thesis
      using that(2,3) 1 2
      by (auto simp add: s2_def ws_readyState_def ws_closeCode_def ws_close_def
          split: option.splits if_splits)
  qed
  have rs5: "ws_readyState s5 = ws_readyState s2" "ws_userId s5 = ws_userId s2"
    by (simp_all add: fun_eq_iff s5_def s4_def s3_def ws_readyState_def ws_userId_def)
  have rs6: "ws_readyState s6 = ws_readyState s2"
    by (simp add: fun_eq_iff s6_def s5_def s4_def s3_def ws_readyState_def)
  have cl5: "clients s5 = clients s'" "clients s6 = clients s'"
    by (simp_all add: cl s6_def s5_def s4_def s3_def cl2)
  have on6: "User_findOnline s6 = User_findOnline s'"
    by (rule User_findOnline_same) (simp add: s'7 s7_def)
  have w4: "wire s4 = wire s"
    by (simp add: s4_def s3_def s2_def s1_def split: option.splits)
  have open4: "ws_readyState s4 ws = OPEN"
    using sk7 by (simp add: ws_readyState_def s4_def s3_def sock7 [symmetric])
  have w5: "wire s5 = wire s @ [(ws, ConnectionEstablished uid uname)]"
    by (simp add: s5_def sendToClient_wire open4 w4)
  have "wire s' = wire s7" by (simp add: s'7)
  also have "\<dots> = wire s6 @ map (\<lambda>c. (c, OnlineUsers (User_findOnline s') (length (User_findOnline s')) now))
               (filter (\<lambda>c. ws_readyState s' c = OPEN) (clients s'))"
    by (simp add: s7_def broadcastOnlineUsers_wire rs6 cl5 on6 rs)
  also have "wire s6 = wire s5 @ map (\<lambda>c. (c, UserOnline uid uname now))
               (filter (\<lambda>c. ws_readyState s' c = OPEN \<and> ws_userId s' c \<noteq> Some uid) (clients s'))"
    by (simp add: s6_def broadcastUserStatus_wire rs5 cl5 rs ui)
  finally show "wire s' = wire s @ [(ws, ConnectionEstablished (u_id user) (u_username user))]
           @ map (\<lambda>c. (c, UserOnline (u_id user) (u_username user) now))
               (filter (\<lambda>c. ws_readyState s' c = OPEN \<and> ws_userId s' c \<noteq> Some (u_id user)) (clients s'))
           @ map (\<lambda>c. (c, OnlineUsers (User_findOnline s') (length (User_findOnline s')) now))
               (filter (\<lambda>c. ws_readyState s' c = OPEN) (clients s'))"
    by (simp add: w5 uid_def uname_def)
  have tu2: "ws_transportUp s' x = ws_transportUp s2 x" for x
    using sk7 by (simp add: s'7 ws_transportUp_def sock7 [symmetric])
  have tu1: "ws_transportUp s2 x = ws_transportUp s x" for x
    using sk by (simp add: s2_def s1_def ws_transportUp_def ws_close_def split: option.splits)
  show tu: "ws_transportUp s' c = ws_transportUp s c" for c
    by (simp add: tu2 tu1)
  have tu5a: "ws_transportUp s5 x = ws_transportUp s2 x" "ws_transportUp s6 x = ws_transportUp s2 x"
    "ws_transportUp s4 x = ws_transportUp s2 x" for x
    by (simp_all add: s6_def s5_def s4_def s3_def ws_transportUp_def)
  have tu5: "ws_transportUp s5 = ws_transportUp s'" "ws_transportUp s6 = ws_transportUp s'"
    "ws_transportUp s4 = ws_transportUp s'"
    by (simp_all add: fun_eq_iff tu2 tu5a)
  have up_ws: "ws_transportUp s' ws = transportUp sk"
    unfolding tu using sk by (simp add: ws_transportUp_def)
  have l4: "lost s4 = lost s"
    by (simp add: s4_def s3_def s2_def s1_def split: option.splits)
  have l5: "lost s5 = lost s @ (if transportUp sk then [] else [(ws, ConnectionEstablished uid uname)])"
    by (simp add: s5_def sendToClient_lost open4 l4 tu5 up_ws)
  have "lost s' = lost s7" by (simp add: s'7)
  also have "\<dots> = lost s6 @ map (\<lambda>c. (c, OnlineUsers (User_findOnline s') (length (User_findOnline s')) now))
               (filter (\<lambda>c. ws_readyState s' c = OPEN \<and> \<not> ws_transportUp s' c) (clients s'))"
    by (simp add: s7_def broadcastOnlineUsers_lost rs6 cl5 on6 rs tu5)
  also have "lost s6 = lost s5 @ map (\<lambda>c. (c, UserOnline uid uname now))
               (filter (\<lambda>c. ws_readyState s' c = OPEN \<and> ws_userId s' c \<noteq> Some uid \<and>
                           \<not> ws_transportUp s' c) (clients s'))"
    by (simp add: s6_def broadcastUserStatus_lost rs5 cl5 rs ui tu5)
  finally show "lost s' = lost s
           @ (if transportUp sk then [] else [(ws, ConnectionEstablished (u_id user) (u_username user))])
           @ map (\<lambda>c. (c, UserOnline (u_id user) (u_username user) now))
               (filter (\<lambda>c. ws_readyState s' c = OPEN \<and> ws_userId s' c \<noteq> Some (u_id user) \<and>
                           \<not> ws_transportUp s' c) (clients s'))
           @ map (\<lambda>c. (c, OnlineUsers (User_findOnline s') (length (User_findOnline s')) now))
               (filter (\<lambda>c. ws_readyState s' c = OPEN \<and> \<not> ws_transportUp s' c) (clients s'))"
    by (simp add: l5 uid_def uname_def)
  show "pending s' = pending s"
    by (simp add: s'7 s7_def s6_def s5_def s4_def s3_def s2_def s1_def split: option.splits)
qed

text \<open>The four ways a handshake is refused.\<close>

lemma onConnection_no_token:
  assumes "token = None \<or> token = Some []"
  shows "onConnection vt ws token dbFails now s =
           ws_close ws 4001
             (sendError ws ''Authentication required. Please provide a valid token.'' now s)"
  using assms by (auto simp add: onConnection_def)

lemma onConnection_invalid_token:
  assumes "tok \<noteq> []" "vt tok = None"
  shows "onConnection vt ws (Some tok) dbFails now s =
           ws_close ws 4002 (sendError ws ''Invalid or expired token. Please login again.'' now s)"
  using assms by (simp add: onConnection_def)

lemma onConnection_store_error:
  assumes "tok \<noteq> []" "vt tok = Some did"
  shows "onConnection vt ws (Some tok) True now s =
           ws_close ws 4004 (sendError ws ''Server error during authentication.'' now s)"
  using assms by (simp add: onConnection_def)

lemma onConnection_user_not_found:
  assumes "tok \<noteq> []" "vt tok = Some did" "User_findById did s = None"
  shows "onConnection vt ws (Some tok) False now s =
           ws_close ws 4003 (sendError ws ''User not found.'' now s)"
  using assms by (simp add: onConnection_def)

text \<open>What a refusal leaves behind, for a socket that has just been opened.\<close>

lemma refused_socket:
  assumes fresh: "sockets s ws = None"
    and s': "s' = ws_close ws code
              (sendError ws text now
                (s\<lparr>sockets := (sockets s)(ws \<mapsto> newSocket), clients := clients s @ [ws]\<rparr>))"
  shows "ws_closeCode s' ws = Some code" and "ws_readyState s' ws = CLOSING"
    and "connectedClients s' = connectedClients s" and "users s' = users s"
    and "messages s' = messages s"
    and "wire s' = wire s @ [(ws, Error text now)]"
    and "c \<noteq> ws \<Longrightarrow> sockets s' c = sockets s c"
    and "connectedClients (step vt (Close ws later) s') = connectedClients s"
    and "users (step vt (Close ws later) s') = users s"
    and "wire (step vt (Close ws later) s') = wire s'"
  unfolding s'
  by (simp_all add: ws_close_def sendError_def sendToClient_def ws_send_def ws_transportUp_def
      ws_readyState_def ws_closeCode_def newSocket_def Let_def)




lemma fresh_not_registered:
  "registry_sound s \<Longrightarrow> sockets s ws = None \<Longrightarrow> map_of (connectedClients s) k \<noteq> Some ws"
  using registry_soundD [of s k ws] by (auto simp add: ws_userId_def)




section \<open>The message handlers, step by step\<close>





lemma ws_readyState_pending [simp]: "ws_readyState (s\<lparr>pending := p\<rparr>) c = ws_readyState s c"
  by (simp add: ws_readyState_def)

lemma ws_readyState_sendToClient [simp]:
  "ws_readyState (sendToClient ws m s) c = ws_readyState s c"
  by (rule ws_readyState_same) simp

lemma ws_readyState_Message_findByIdAndUpdate [simp]:
  "ws_readyState (Message_findByIdAndUpdate i st s) c = ws_readyState s c"
  by (rule ws_readyState_same) simp











section \<open>The concrete deployment, evaluated\<close>

lemma ids_distinct [simp]: "alice \<noteq> bob" "bob \<noteq> alice" "alice \<noteq> carol" "carol \<noteq> alice" "bob \<noteq> carol" "carol \<noteq> bob"
  "alice \<noteq> []" "bob \<noteq> []" "carol \<noteq> []"
  by (simp_all add: alice_def bob_def carol_def)

lemma demo_verify_simps [simp]:
  "demo_verify ''jwt-alice'' = Some alice" "demo_verify ''jwt-bob'' = Some bob"
  "demo_verify ''jwt-carol'' = Some carol"
  by (simp_all add: demo_verify_def)

lemma cast_ids:
  "castObjectId alice = Some alice" "castObjectId bob = Some bob" "castObjectId carol = Some carol"
  by (simp_all add: castObjectId_def isHexDigit_def toLowerCase_def alice_def bob_def carol_def)

lemma hi_simps: "hi \<noteq> []" "trim hi = hi" "length hi \<le> 5000" "\<not> 5000 < length hi"
  by (simp_all add: hi_def trim_def isSpace_def)

lemmas eval_defs = onConnection_def User_findById_def sendToClient_def sendError_def ws_send_def
  ws_transportUp_def ws_readyState_def ws_close_def User_findByIdAndUpdate_def
  broadcastUserStatus_def broadcastOnlineUsers_def User_findOnline_def newSocket_def Let_def
  demo_user_def

lemma demo1_fields:
  "connectedClients demo1 = [(alice, 1)]"
  "sockets demo1 = [1 \<mapsto> \<lparr>readyState = OPEN, userId = Some alice, username = Some ''alice'',
       isAlive = Some True, closeCode = None, listening = True, transportUp = True\<rparr>]"
  "clients demo1 = [1]"
  "users demo1 = [(demo_user alice ''alice'')\<lparr>isOnline := True\<rparr>, demo_user bob ''bob'', demo_user carol ''carol'']"
  "messages demo1 = []"
  "wire demo1 = [(1, ConnectionEstablished alice ''alice''),
                 (1, OnlineUsers [(alice, ''alice'', None)] 1 100)]"
  "lost demo1 = []"
  "pending demo1 = []"
  by (simp_all add: demo1_def demo0_def eval_defs)

lemma demo2_fields:
  "connectedClients demo2 = [(alice, 1), (bob, 2)]"
  "sockets demo2 = [1 \<mapsto> \<lparr>readyState = OPEN, userId = Some alice, username = Some ''alice'',
       isAlive = Some True, closeCode = None, listening = True, transportUp = True\<rparr>,
       2 \<mapsto> \<lparr>readyState = OPEN, userId = Some bob, username = Some ''bob'',
       isAlive = Some True, closeCode = None, listening = True, transportUp = True\<rparr>]"
  "clients demo2 = [1, 2]"
  "users demo2 = [(demo_user alice ''alice'')\<lparr>isOnline := True\<rparr>, (demo_user bob ''bob'')\<lparr>isOnline := True\<rparr>, demo_user carol ''carol'']"
  "messages demo2 = []"
  "wire demo2 = wire demo1 @ [(2, ConnectionEstablished bob ''bob''), (1, UserOnline bob ''bob'' 101),
                 (1, OnlineUsers [(alice, ''alice'', None), (bob, ''bob'', None)] 2 101),
                 (2, OnlineUsers [(alice, ''alice'', None), (bob, ''bob'', None)] 2 101)]"
  "lost demo2 = []"
  "pending demo2 = []"
  by (simp_all add: demo2_def demo1_fields eval_defs)

lemma initial_demo0: "initial demo0"
  by (simp add: initial_def demo0_def)

lemma reachable_demo1: "reachable demo_verify demo1"
  unfolding demo1_def by (intro reachable.next_event reachable.start initial_demo0)


lemma demo_twice_fields:
  "connectedClients demo_twice = [(alice, 2)]"
  "sockets demo_twice = [1 \<mapsto> \<lparr>readyState = CLOSING, userId = Some alice, username = Some ''alice'',
       isAlive = Some True, closeCode = Some 4005, listening = True, transportUp = True\<rparr>,
       2 \<mapsto> \<lparr>readyState = OPEN, userId = Some alice, username = Some ''alice'',
       isAlive = Some True, closeCode = None, listening = True, transportUp = True\<rparr>]"
  "clients demo_twice = [1, 2]"
  "users demo_twice = users demo1"
  "messages demo_twice = []"
  "wire demo_twice = wire demo1 @ [(2, ConnectionEstablished alice ''alice''),
                 (2, OnlineUsers [(alice, ''alice'', None)] 1 101)]"
  "lost demo_twice = []"
  "pending demo_twice = []"
  by (simp_all add: demo_twice_def demo1_fields eval_defs)

lemma demo_late_fields:
  "connectedClients demo_late = []"
  "sockets demo_late = [2 \<mapsto> \<lparr>readyState = OPEN, userId = Some alice, username = Some ''alice'',
       isAlive = Some True, closeCode = None, listening = True, transportUp = True\<rparr>,
       1 \<mapsto> \<lparr>readyState = CLOSED, userId = Some alice, username = Some ''alice'',
       isAlive = Some True, closeCode = Some 4005, listening = True, transportUp = True\<rparr>]"
  "clients demo_late = [2]"
  "users demo_late = [(demo_user alice ''alice'')\<lparr>lastSeen := 102\<rparr>, demo_user bob ''bob'', demo_user carol ''carol'']"
  "messages demo_late = []"
  "wire demo_late = wire demo_twice @ [(2, OnlineUsers [] 0 102)]"
  by (simp_all add: demo_late_def demo_twice_fields demo1_fields eval_defs onClose_def)

lemma run_demo_late:
  "run demo_verify [Connection 1 (Some ''jwt-alice'') False 100,
      Connection 2 (Some ''jwt-alice'') False 101, Close 1 102] demo0 = demo_late"
  by (simp only: run.simps demo1_def [symmetric] demo_twice_def [symmetric] demo_late_def [symmetric])






lemma upper_ids [simp]:
  "castObjectId alice_upper = Some alice" "castObjectId bob_upper = Some bob"
  "alice_upper \<noteq> alice" "alice \<noteq> alice_upper" "bob_upper \<noteq> alice" "alice \<noteq> bob_upper"
  "bob_upper \<noteq> bob" "bob \<noteq> bob_upper" "alice_upper \<noteq> []" "bob_upper \<noteq> []"
  by (simp_all add: castObjectId_def isHexDigit_def toLowerCase_def alice_def bob_def
      alice_upper_def bob_upper_def)

lemma cast_xyz: "castObjectId ''xyz'' = None"
  by (simp add: castObjectId_def)

lemmas message_defs = onMessage_def handleMessage_def handleChatMessage_def handleMarkRead_def
  afterCreate_def afterPopulate_def afterStatusUpdate_def afterMarkAsRead_def afterFindOnline_def
  Message_create_def Message_findByIdAndUpdate_def Message_markAsRead_def unreadFrom_def
  sendToClient_def ws_send_def ws_transportUp_def sendError_def ws_readyState_def Let_def
  chat_def chat_data_def mark_read_def read_data_def cast_ids cast_xyz hi_simps hi_message_def








section \<open>The claims\<close>



text \<open>
  C2. The close listener deletes the registry entry of its identity whatever socket the
  entry holds. Alice connects on socket 1 and again on socket 2, which closes socket 1
  with code 4005; when the close event of socket 1 fires, the entry that holds socket 2
  is removed, although socket 2 is open and carries Alice's identity.
\<close>

theorem late_close_removes_newer_connection:
  "map_of (connectedClients
      (run demo_verify [Connection 1 (Some ''jwt-alice'') False 100,
         Connection 2 (Some ''jwt-alice'') False 101] demo0)) alice = Some 2 \<and>
   ws_closeCode
      (run demo_verify [Connection 1 (Some ''jwt-alice'') False 100,
         Connection 2 (Some ''jwt-alice'') False 101] demo0) 1 = Some 4005 \<and>
   map_of (connectedClients
      (run demo_verify [Connection 1 (Some ''jwt-alice'') False 100,
         Connection 2 (Some ''jwt-alice'') False 101, Close 1 102] demo0)) alice = None \<and>
   ws_readyState
      (run demo_verify [Connection 1 (Some ''jwt-alice'') False 100,
         Connection 2 (Some ''jwt-alice'') False 101, Close 1 102] demo0) 2 = OPEN \<and>
   ws_userId
      (run demo_verify [Connection 1 (Some ''jwt-alice'') False 100,
         Connection 2 (Some ''jwt-alice'') False 101, Close 1 102] demo0) 2 = Some alice"
proof -
  have two: "run demo_verify [Connection 1 (Some ''jwt-alice'') False 100,
         Connection 2 (Some ''jwt-alice'') False 101] demo0 = demo_twice"
    by (simp only: run.simps demo1_def [symmetric] demo_twice_def [symmetric])
  show ?thesis
    unfolding two run_demo_late
    by (simp add: demo_twice_fields demo_late_fields ws_closeCode_def ws_readyState_def ws_userId_def)
qed







text \<open>
  C5. The self-send guard compares the receiverId with \<^verbatim>\<open>ws.userId\<close> as strings,
  while the store casts the receiverId to an ObjectId. Alice (socket 1, open) sends a
  chat_message whose receiverId is her own identifier: written as the server holds it,
  the guard answers with an error envelope and nothing is stored; written with its
  digits in upper case, the guard lets it pass, the store casts it to Alice's ObjectId,
  a message from Alice to Alice is stored, and Alice receives message_sent.
\<close>

theorem self_send_in_upper_case_is_stored:
  "ws_userId demo1 1 = Some alice \<and> ws_readyState demo1 1 = OPEN \<and>
   wire (run demo_verify [Message 1 (chat alice hi None) False 102] demo1)
     = wire demo1 @ [(1, Error ''Cannot send message to yourself'' 102)] \<and>
   messages (run demo_verify [Message 1 (chat alice hi None) False 102] demo1) = [] \<and>
   pending (run demo_verify [Message 1 (chat alice hi None) False 102] demo1) = [] \<and>
   castObjectId alice_upper = Some alice \<and>
   wire (run demo_verify [Message 1 (chat alice_upper hi None) False 102, Resume 0 False 103,
       Resume 0 False 104] demo1)
     = wire demo1 @ [(1, MessageSent 0 alice_upper hi 102 Sent)] \<and>
   messages (run demo_verify [Message 1 (chat alice_upper hi None) False 102, Resume 0 False 103,
       Resume 0 False 104] demo1)
     = [\<lparr>m_id = 0, sender = alice, receiver = alice, content = hi, messageType = ''text'',
         isRead = False, readAt = None, status = Sent, createdAt = 102\<rparr>]"
  by (simp add: demo1_fields message_defs ws_userId_def)




text \<open>
  C7. The status update that follows a delivery is unconditional, and the handler is
  suspended between storing the message and updating its status. Alice (socket 1) sends
  Bob (socket 2) a chat_message; the message is stored with status sent. Before the
  handler resumes, Bob's mark_read request for Alice's messages is handled: the message
  gets isRead true and status read. Then the chat handler resumes twice: it delivers the
  message and sets the status to delivered. The stored message keeps its identifier, is
  still marked as read with its readAt, and its status has gone back from read to
  delivered; it stays so when both handlers have run to their end.
\<close>

theorem delivery_update_overwrites_read:
  "messages (run demo_verify [Message 1 (chat bob hi None) False 102] demo2) = [hi_message 0 102] \<and>
   messages (run demo_verify [Message 1 (chat bob hi None) False 102,
       Message 2 (mark_read alice) False 103] demo2)
     = [(hi_message 0 102)\<lparr>isRead := True, readAt := Some 103, status := Read\<rparr>] \<and>
   messages (run demo_verify [Message 1 (chat bob hi None) False 102,
       Message 2 (mark_read alice) False 103, Resume 0 False 104, Resume 1 False 105] demo2)
     = [(hi_message 0 102)\<lparr>isRead := True, readAt := Some 103, status := Delivered\<rparr>] \<and>
   status_rank Delivered < status_rank Read \<and>
   messages (run demo_verify [Message 1 (chat bob hi None) False 102,
       Message 2 (mark_read alice) False 103, Resume 0 False 104, Resume 1 False 105,
       Resume 0 False 106, Resume 0 False 107] demo2)
     = [(hi_message 0 102)\<lparr>isRead := True, readAt := Some 103, status := Delivered\<rparr>] \<and>
   pending (run demo_verify [Message 1 (chat bob hi None) False 102,
       Message 2 (mark_read alice) False 103, Resume 0 False 104, Resume 1 False 105,
       Resume 0 False 106, Resume 0 False 107] demo2) = [] \<and>
   wire (run demo_verify [Message 1 (chat bob hi None) False 102,
       Message 2 (mark_read alice) False 103, Resume 0 False 104, Resume 1 False 105,
       Resume 0 False 106, Resume 0 False 107] demo2)
     = wire demo2 @ [(1, MessageSent 0 bob hi 102 Sent),
         (2, NewMessage 0 alice ''alice'' hi ''text'' 102), (1, MessagesRead bob ''bob'' 106),
         (2, MarkReadSuccess alice 1), (1, MessageDelivered 0 107)]"
  by (simp add: demo2_fields message_defs)



text \<open>
  C9. A handshake on a fresh socket is refused with close code 4001 when the token is
  absent or empty, 4002 when the verifier rejects it, 4003 when no user document has the
  decoded identity, 4004 when the user lookup throws; an accepted handshake leaves the
  socket without a close code, and any other socket it closes gets code 4005. A socket
  closed by its own handshake is closing, the registry and the user collection are as
  before, the only frame written is one error envelope to that socket, and its later
  close event changes neither registry nor users and writes nothing.
\<close>

theorem handshake_rejections:
  assumes "reachable verifyToken s" and "sockets s ws = None"
    and "s' = step verifyToken (Connection ws token dbFails now) s"
  shows
    "(token = None \<or> token = Some [] \<longrightarrow> ws_closeCode s' ws = Some 4001) \<and>
     (\<forall>tok. token = Some tok \<and> tok \<noteq> [] \<and> verifyToken tok = None \<longrightarrow>
        ws_closeCode s' ws = Some 4002) \<and>
     (\<forall>tok did. token = Some tok \<and> tok \<noteq> [] \<and> verifyToken tok = Some did \<and> \<not> dbFails \<and>
        User_findById did s = None \<longrightarrow> ws_closeCode s' ws = Some 4003) \<and>
     (\<forall>tok did. token = Some tok \<and> tok \<noteq> [] \<and> verifyToken tok = Some did \<and> dbFails \<longrightarrow>
        ws_closeCode s' ws = Some 4004) \<and>
     (\<forall>tok did user. token = Some tok \<and> tok \<noteq> [] \<and> verifyToken tok = Some did \<and> \<not> dbFails \<and>
        User_findById did s = Some user \<longrightarrow>
        ws_closeCode s' ws = None \<and> map_of (connectedClients s') (u_id user) = Some ws) \<and>
     (\<forall>old. ws_readyState s old = OPEN \<and> ws_readyState s' old \<noteq> OPEN \<longrightarrow>
        ws_closeCode s' old = Some 4005) \<and>
     (ws_closeCode s' ws \<noteq> None \<longrightarrow>
        ws_readyState s' ws = CLOSING \<and>
        connectedClients s' = connectedClients s \<and> users s' = users s \<and>
        (\<exists>text. wire s' = wire s @ [(ws, Error text now)]) \<and>
        connectedClients (step verifyToken (Close ws later) s') = connectedClients s \<and>
        users (step verifyToken (Close ws later) s') = users s \<and>
        wire (step verifyToken (Close ws later) s') = wire s')"
proof -
  define s0 where "s0 = s\<lparr>sockets := (sockets s)(ws \<mapsto> newSocket), clients := clients s @ [ws]\<rparr>"
  have st: "s' = onConnection verifyToken ws token dbFails now s0"
    using assms(2,3) by (simp add: s0_def)
  have find0: "User_findById did s0 = User_findById did s" for did
    by (simp add: s0_def User_findById_def)
  have others: "ws_readyState s old = OPEN \<Longrightarrow> old \<noteq> ws" for old
    using assms(2) by (auto simp add: ws_readyState_def)
  have refused: "ws_closeCode s' ws = Some code \<and>
       (\<forall>old. ws_readyState s old = OPEN \<and> ws_readyState s' old \<noteq> OPEN \<longrightarrow>
          ws_closeCode s' old = Some 4005) \<and>
       (ws_readyState s' ws = CLOSING \<and>
        connectedClients s' = connectedClients s \<and> users s' = users s \<and>
        (\<exists>text. wire s' = wire s @ [(ws, Error text now)]) \<and>
        connectedClients (step verifyToken (Close ws later) s') = connectedClients s \<and>
        users (step verifyToken (Close ws later) s') = users s \<and>
        wire (step verifyToken (Close ws later) s') = wire s')"
    if eq: "s' = ws_close ws code (sendError ws msg now s0)" for code msg
  proof -
    note r = refused_socket [OF assms(2) eq [unfolded s0_def]]
    have "ws_readyState s' old = ws_readyState s old" if "old \<noteq> ws" for old
      using r(7) [OF that] by (simp add: ws_readyState_def)
    then have "\<forall>old. ws_readyState s old = OPEN \<and> ws_readyState s' old \<noteq> OPEN \<longrightarrow>
          ws_closeCode s' old = Some 4005"
      using others by auto
    then show ?thesis
      using r(1-4) r(6) r(8) [of verifyToken later] r(9) [of verifyToken later]
        r(10) [of verifyToken later]
      by blast
  qed
  consider (none) "token = None \<or> token = Some []"
    | (invalid) tok where "token = Some tok" "tok \<noteq> []" "verifyToken tok = None"
    | (dberr) tok did where "token = Some tok" "tok \<noteq> []" "verifyToken tok = Some did" "dbFails"
    | (nouser) tok did where "token = Some tok" "tok \<noteq> []" "verifyToken tok = Some did"
        "\<not> dbFails" "User_findById did s = None"
    | (accepted) tok did user where "token = Some tok" "tok \<noteq> []" "verifyToken tok = Some did"
        "\<not> dbFails" "User_findById did s = Some user"
  proof (cases token)
    case None
    then show ?thesis using none by simp
  next
    case (Some tok)
    show ?thesis
    proof (cases "tok = []")
      case True
      then show ?thesis using none Some by simp
    next
      case False
      show ?thesis
      proof (cases "verifyToken tok")
        case None
        then show ?thesis using invalid Some False by simp
      next
        case (Some did)
        show ?thesis
        proof (cases dbFails)
          case True
          then show ?thesis using dberr \<open>token = Some tok\<close> False Some by simp
        next
          case nf: False
          show ?thesis
            using nouser [OF \<open>token = Some tok\<close> False Some nf]
              accepted [OF \<open>token = Some tok\<close> False Some nf]
            by (cases "User_findById did s") auto
        qed
      qed
    qed
  qed
  then show ?thesis
  proof cases
    case none
    have "s' = ws_close ws 4001
        (sendError ws ''Authentication required. Please provide a valid token.'' now s0)"
      using onConnection_no_token [OF none, of verifyToken ws dbFails now s0] by (simp add: st)
    from refused [OF this] show ?thesis using none by auto
  next
    case (invalid tok)
    have "s' = ws_close ws 4002
        (sendError ws ''Invalid or expired token. Please login again.'' now s0)"
      using onConnection_invalid_token [of tok verifyToken ws dbFails now s0] invalid
      by (simp add: st)
    from refused [OF this] show ?thesis using invalid by auto
  next
    case (dberr tok did)
    have "s' = ws_close ws 4004 (sendError ws ''Server error during authentication.'' now s0)"
      using onConnection_store_error [of tok verifyToken did ws now s0] dberr by (simp add: st)
    from refused [OF this] show ?thesis using dberr by auto
  next
    case (nouser tok did)
    have "s' = ws_close ws 4003 (sendError ws ''User not found.'' now s0)"
      using onConnection_user_not_found [of tok verifyToken did s0 ws now] nouser
      by (simp add: st find0)
    from refused [OF this] show ?thesis using nouser by auto
  next
    case (accepted tok did user)
    have sound: "registry_sound s" using assms(1) by (rule reachable_registry_sound)
    have noself: "map_of (connectedClients s0) (u_id user) \<noteq> Some ws"
      using fresh_not_registered [OF sound assms(2), of "u_id user"] by (simp add: s0_def)
    have sk0: "sockets s0 ws = Some newSocket" "readyState newSocket = OPEN"
      by (simp_all add: s0_def newSocket_def)
    have usr0: "User_findById did s0 = Some user" using accepted(5) by (simp add: find0)
    have st': "s' = onConnection verifyToken ws (Some tok) False now s0"
      using st accepted(1,4) by simp
    note acc = onConnection_accepted [of s0 ws newSocket tok verifyToken did user s' now,
        OF sk0 accepted(2,3) usr0 noself st']
    have code: "ws_closeCode s' ws = None" using acc(9) by (simp add: newSocket_def)
    have reg: "map_of (connectedClients s') (u_id user) = Some ws"
      by (simp add: acc(1) update_conv')
    have "ws_closeCode s' old = Some 4005"
      if "ws_readyState s old = OPEN" "ws_readyState s' old \<noteq> OPEN" for old
    proof -
      have ne: "old \<noteq> ws" using that(1) by (rule others)
      then have "ws_readyState s0 old = OPEN" using that(1) by (simp add: s0_def ws_readyState_def)
      then show ?thesis using acc(10) [OF ne] that(2) by simp
    qed
    then show ?thesis using accepted code reg by auto
  qed
qed


theorem handshake_rejections_witness:
  "reachable demo_verify demo1 \<and> sockets demo1 2 = None \<and>
   ws_closeCode (step demo_verify (Connection 2 None False 101) demo1) 2 = Some 4001 \<and>
   ws_closeCode (step demo_verify (Connection 2 (Some ''expired'') False 101) demo1) 2 = Some 4002 \<and>
   ws_closeCode (step demo_verify (Connection 2 (Some ''jwt-ghost'') False 101) demo1) 2 = Some 4003 \<and>
   ws_closeCode (step demo_verify (Connection 2 (Some ''jwt-bob'') True 101) demo1) 2 = Some 4004 \<and>
   ws_closeCode (step demo_verify (Connection 2 (Some ''jwt-alice'') False 101) demo1) 1 = Some 4005 \<and>
   ws_readyState (step demo_verify (Connection 2 None False 101) demo1) 2 = CLOSING \<and>
   connectedClients (step demo_verify (Connection 2 None False 101) demo1) = connectedClients demo1 \<and>
   users (step demo_verify (Connection 2 None False 101) demo1) = users demo1 \<and>
   users (step demo_verify (Close 2 102) (step demo_verify (Connection 2 None False 101) demo1))
     = users demo1"
proof -
  have fresh: "sockets demo1 2 = None" by (simp add: demo1_fields)
  note th = handshake_rejections [OF reachable_demo1 fresh refl]
  have c1: "ws_closeCode (step demo_verify (Connection 2 None False 101) demo1) 2 = Some 4001"
    using th [of None False 101] by simp
  have c2: "ws_closeCode (step demo_verify (Connection 2 (Some ''expired'') False 101) demo1) 2 = Some 4002"
    using th [of "Some ''expired''" False 101] by (simp add: demo_verify_def)
  have c3: "ws_closeCode (step demo_verify (Connection 2 (Some ''jwt-ghost'') False 101) demo1) 2 = Some 4003"
  proof -
    have "demo_verify ''jwt-ghost'' = Some ''65a1f0c2b3d4e5f60718293d''"
      by (simp add: demo_verify_def)
    moreover have "User_findById ''65a1f0c2b3d4e5f60718293d'' demo1 = None"
      by (simp add: User_findById_def demo1_fields demo_user_def alice_def bob_def carol_def)
    ultimately show ?thesis using th [of "Some ''jwt-ghost''" False 101] by simp
  qed
  have c4: "ws_closeCode (step demo_verify (Connection 2 (Some ''jwt-bob'') True 101) demo1) 2 = Some 4004"
    using th [of "Some ''jwt-bob''" True 101] by simp
  have "ws_readyState demo1 1 = OPEN" by (simp add: ws_readyState_def demo1_fields)
  moreover have "ws_readyState (step demo_verify (Connection 2 (Some ''jwt-alice'') False 101) demo1) 1 \<noteq> OPEN"
    unfolding demo_twice_def [symmetric] by (simp add: demo_twice_fields ws_readyState_def)
  ultimately have c5:
    "ws_closeCode (step demo_verify (Connection 2 (Some ''jwt-alice'') False 101) demo1) 1 = Some 4005"
    using th [of "Some ''jwt-alice''" False 101] by blast
  have rest: "ws_readyState (step demo_verify (Connection 2 None False 101) demo1) 2 = CLOSING \<and>
   connectedClients (step demo_verify (Connection 2 None False 101) demo1) = connectedClients demo1 \<and>
   users (step demo_verify (Connection 2 None False 101) demo1) = users demo1 \<and>
   users (step demo_verify (Close 2 102) (step demo_verify (Connection 2 None False 101) demo1))
     = users demo1"
    using th [of None False 101 102] c1 by simp
  show ?thesis using reachable_demo1 fresh c1 c2 c3 c4 c5 rest by blast
qed

end
